theory Spec2Isabelle
  imports Complex_Main "HOL-Library.Log_Nat"
begin

section \<open>Data model of the market analyzer\<close>

text \<open>
  The analyzer (\<^verbatim>\<open>src/service/MarketAnalyzer.js\<close>) works on the JSON that the
  marketplace returns. Identifiers (record keys, asset ids, purchaser ids) are JSON
  strings. In a raw ledger entry \<open>None\<close> is a field that is absent
  (\<^verbatim>\<open>undefined\<close>); in the records the parser builds \<open>None\<close> is
  \<^verbatim>\<open>null\<close>, which is what \<^verbatim>\<open>?? null\<close> and \<^verbatim>\<open>|| null\<close> leave there.
  Money amounts are integers in minor currency units, and unix timestamps are integers.
  The errors are the ones the source can raise: the explicit
  \<^verbatim>\<open>Error("Invalid history object")\<close>, the explicit
  \<^verbatim>\<open>Error("transactions must be an array")\<close>, the \<^verbatim>\<open>TypeError\<close> of
  \<^verbatim>\<open>Object.entries(undefined)\<close> and the \<^verbatim>\<open>RangeError\<close> of
  \<^verbatim>\<open>Date.prototype.toISOString\<close> on an invalid date.
\<close>

datatype error = InvalidHistory | TypeError | NotAnArrayError | RangeError

record asset_ref =
  asset_appid :: "string option"
  asset_contextid :: "string option"
  asset_id :: "string option"
  asset_new_id :: "string option"

record raw_entry =
  raw_steamid_purchaser :: "string option"
  raw_asset :: "asset_ref option"
  raw_market_name :: "string option"
  raw_paid_amount :: "int option"
  raw_paid_fee :: "int option"
  raw_currencyid :: "string option"
  raw_time_sold :: "int option"
  received_amount :: "int option"
  received_currencyid :: "string option"

record asset_info =
  market_hash_name :: "string option"
  unowned_id :: "string option"

text \<open>
  \<^verbatim>\<open>history.assets\<close>: game id, then context id, then asset id. Each level is a
  JavaScript object, kept as an association list in the order of \<^verbatim>\<open>Object.values\<close>.
\<close>

type_synonym context_assets = "(string \<times> asset_info) list"
type_synonym catalog = "(string \<times> (string \<times> context_assets) list) list"

record history =
  purchases :: "(string \<times> raw_entry) list option"
  assets :: "catalog option"

record parsed =
  id_key :: string
  new_id :: "string option"
  appid :: "string option"
  contextid :: "string option"
  assetid :: "string option"
  type_p :: string
  market_name :: string
  paid_amount :: int
  paid_fee :: int
  paid_total :: int
  currencyid :: "string option"
  time_sold :: "int option"
  steamid_purchaser :: "string option"
  raw :: raw_entry

record tx =
  transaction_id :: string
  transaction_status :: string
  role :: string
  purchase_id :: string
  purchase :: parsed
  linked_sale_id :: "string option"
  linked_purchase_id :: "string option"
  tx_time_sold :: "int option"

record parse_result =
  transactions :: "tx list"
  purchases_count :: nat
  completed_purchases_count :: nat
  uncompleted_purchases_count :: nat
  sales_count :: nat
  received_sales_count :: nat
  totalTransactions :: nat

section \<open>JavaScript primitives used by the analyzer\<close>

text \<open>Truthiness of a string-valued field: absent and the empty string are falsy.\<close>

definition truthy :: "string option \<Rightarrow> bool" where
  "truthy s = (case s of None \<Rightarrow> False | Some v \<Rightarrow> v \<noteq> [])"

text \<open>\<^verbatim>\<open>a || d\<close> for a string field \<open>a\<close> and a string \<open>d\<close>.\<close>

definition str_or :: "string option \<Rightarrow> string \<Rightarrow> string" where
  "str_or a d = (case a of None \<Rightarrow> d | Some v \<Rightarrow> if v = [] then d else v)"

text \<open>\<^verbatim>\<open>a || null\<close> for a string field.\<close>

definition str_or_null :: "string option \<Rightarrow> string option" where
  "str_or_null a = (if truthy a then a else None)"

text \<open>\<^verbatim>\<open>a || 0\<close> for a numeric field.\<close>

definition num_or_0 :: "int option \<Rightarrow> int" where
  "num_or_0 a = (case a of None \<Rightarrow> 0 | Some n \<Rightarrow> n)"

text \<open>\<^verbatim>\<open>a || null\<close> for a numeric field: \<open>0\<close> is falsy.\<close>

definition num_or_null :: "int option \<Rightarrow> int option" where
  "num_or_null a = (if a = Some 0 then None else a)"

text \<open>\<^verbatim>\<open>String(x)\<close> of a field that is a string or \<^verbatim>\<open>null\<close>.\<close>

definition String :: "string option \<Rightarrow> string" where
  "String s = (case s of None \<Rightarrow> ''null'' | Some v \<Rightarrow> v)"

text \<open>
  \<^verbatim>\<open>new Map(entries)\<close> followed by \<^verbatim>\<open>get\<close>: of two entries with the same key
  the later one is kept.
\<close>

definition Map_new :: "('k \<times> 'v) list \<Rightarrow> ('k \<rightharpoonup> 'v)" where
  "Map_new entries = map_of (rev entries)"

section \<open>The ledger parser\<close>

text \<open>
  \<^verbatim>\<open>parseMarketHistory\<close>, lines 14 to 159. The account is the string
  \<^verbatim>\<open>String(this.steamId)\<close>. The purchases object is the list of its entries in the
  order of \<^verbatim>\<open>Object.entries\<close>; its keys are distinct, which the theorems that need
  it assume. The warning printed for an unknown item and the log line of the
  \<^verbatim>\<open>catch\<close> block, which rethrows, are console output and are left out, as is the
  index \<^verbatim>\<open>purchasesByNewId\<close>, which is built and never read.
\<close>

definition isMyPurchase :: "string \<Rightarrow> raw_entry \<Rightarrow> bool" where
  "isMyPurchase mySteamId transaction = (raw_steamid_purchaser transaction = Some mySteamId)"

text \<open>Catalog lookup, lines 31 to 42: by asset id first, then by \<^verbatim>\<open>unowned_id\<close>.\<close>

definition itemInfo ::
  "catalog option \<Rightarrow> string option \<Rightarrow> string option \<Rightarrow> string option \<Rightarrow> asset_info option"
where
  "itemInfo cat ap ctx aid =
     (case (ap, ctx, aid) of
        (Some a, Some c, Some i) \<Rightarrow>
          if a \<noteq> [] \<and> c \<noteq> [] \<and> i \<noteq> [] then
            (case Option.bind (Option.bind cat (\<lambda>g. map_of g a)) (\<lambda>g. map_of g c) of
               None \<Rightarrow> None
             | Some contextAssets \<Rightarrow>
                 (case map_of contextAssets i of
                    Some info \<Rightarrow> Some info
                  | None \<Rightarrow> find (\<lambda>item. unowned_id item = Some i) (map snd contextAssets)))
          else None
      | _ \<Rightarrow> None)"

definition parseEntry :: "string \<Rightarrow> catalog option \<Rightarrow> string \<times> raw_entry \<Rightarrow> parsed" where
  "parseEntry mySteamId cat kv =
     (let key = fst kv; transaction = snd kv;
          ap = Option.bind (raw_asset transaction) asset_appid;
          ctx = Option.bind (raw_asset transaction) asset_contextid;
          aid = Option.bind (raw_asset transaction) asset_id;
          nid = Option.bind (raw_asset transaction) asset_new_id
      in \<lparr> id_key = key,
           new_id = nid,
           appid = ap,
           contextid = ctx,
           assetid = aid,
           type_p = (if isMyPurchase mySteamId transaction then ''purchase'' else ''sale''),
           market_name =
             str_or (Option.bind (itemInfo cat ap ctx aid) market_hash_name)
               (str_or (raw_market_name transaction) ''Unknown Item''),
           paid_amount = num_or_0 (raw_paid_amount transaction),
           paid_fee = num_or_0 (raw_paid_fee transaction),
           paid_total = num_or_0 (raw_paid_amount transaction) + num_or_0 (raw_paid_fee transaction),
           currencyid = raw_currencyid transaction,
           time_sold = num_or_null (raw_time_sold transaction),
           steamid_purchaser = str_or_null (raw_steamid_purchaser transaction),
           raw = transaction \<rparr>)"

definition accountPurchases ::
  "string \<Rightarrow> catalog option \<Rightarrow> (string \<times> raw_entry) list \<Rightarrow> parsed list" where
  "accountPurchases mySteamId cat es =
     map (parseEntry mySteamId cat) (filter (\<lambda>kv. isMyPurchase mySteamId (snd kv)) es)"

definition accountSales ::
  "string \<Rightarrow> catalog option \<Rightarrow> (string \<times> raw_entry) list \<Rightarrow> parsed list" where
  "accountSales mySteamId cat es =
     map (parseEntry mySteamId cat) (filter (\<lambda>kv. \<not> isMyPurchase mySteamId (snd kv)) es)"

definition salesByAssetId :: "parsed list \<Rightarrow> (string \<rightharpoonup> parsed)" where
  "salesByAssetId sales =
     Map_new (map (\<lambda>s. (String (assetid s), s)) (filter (\<lambda>s. truthy (assetid s)) sales))"

definition purchaseCompleted :: "parsed \<Rightarrow> parsed \<Rightarrow> tx" where
  "purchaseCompleted p matchedSale =
     \<lparr> transaction_id = ''purchase:'' @ id_key p,
       transaction_status = ''completed'',
       role = ''purchase'',
       purchase_id = id_key p,
       purchase = p,
       linked_sale_id = Some (id_key matchedSale),
       linked_purchase_id = None,
       tx_time_sold = time_sold p \<rparr>"

definition saleCompleted :: "parsed \<Rightarrow> parsed \<Rightarrow> tx" where
  "saleCompleted p matchedSale =
     \<lparr> transaction_id = ''sale:'' @ id_key matchedSale,
       transaction_status = ''completed'',
       role = ''sale'',
       purchase_id = id_key matchedSale,
       purchase = matchedSale,
       linked_sale_id = None,
       linked_purchase_id = Some (id_key p),
       tx_time_sold = time_sold matchedSale \<rparr>"

definition purchaseUncompleted :: "parsed \<Rightarrow> tx" where
  "purchaseUncompleted p =
     \<lparr> transaction_id = ''purchase:'' @ id_key p,
       transaction_status = ''uncompleted'',
       role = ''purchase'',
       purchase_id = id_key p,
       purchase = p,
       linked_sale_id = None,
       linked_purchase_id = None,
       tx_time_sold = time_sold p \<rparr>"

definition saleReceived :: "parsed \<Rightarrow> tx" where
  "saleReceived sale =
     \<lparr> transaction_id = ''sale:'' @ id_key sale,
       transaction_status = ''received'',
       role = ''sale'',
       purchase_id = id_key sale,
       purchase = sale,
       linked_sale_id = None,
       linked_purchase_id = None,
       tx_time_sold = time_sold sale \<rparr>"

text \<open>
  The linking loop, lines 84 to 124. The state is the set \<^verbatim>\<open>matchedSaleIds\<close> and
  the list \<^verbatim>\<open>transactions\<close>; every purchase probes the same index.
\<close>

fun linkPurchases ::
  "(string \<rightharpoonup> parsed) \<Rightarrow> parsed list \<Rightarrow> string set \<times> tx list \<Rightarrow> string set \<times> tx list"
where
  "linkPurchases idx [] st = st"
| "linkPurchases idx (p # ps) (matchedSaleIds, txs) =
     (case idx (String (new_id p)) of
        Some matchedSale \<Rightarrow>
          linkPurchases idx ps
            (insert (id_key matchedSale) matchedSaleIds,
             txs @ [purchaseCompleted p matchedSale, saleCompleted p matchedSale])
      | None \<Rightarrow>
          linkPurchases idx ps (matchedSaleIds, txs @ [purchaseUncompleted p]))"

text \<open>The loop over the sales, lines 126 to 137.\<close>

definition emitReceived :: "string set \<Rightarrow> parsed list \<Rightarrow> tx list" where
  "emitReceived matchedSaleIds sales =
     map saleReceived (filter (\<lambda>sale. id_key sale \<notin> matchedSaleIds) sales)"

record status_counts =
  completed :: nat
  uncompleted :: nat
  received :: nat

definition countStep :: "status_counts \<Rightarrow> tx \<Rightarrow> status_counts" where
  "countStep acc t =
     (let a1 = (if transaction_status t = ''completed'' \<and> role t = ''sale''
                then acc\<lparr>completed := completed acc + 1\<rparr> else acc);
          a2 = (if transaction_status t = ''uncompleted''
                then a1\<lparr>uncompleted := uncompleted a1 + 1\<rparr> else a1)
      in (if transaction_status t = ''received''
          then a2\<lparr>received := received a2 + 1\<rparr> else a2))"

definition linkAll :: "parsed list \<Rightarrow> parsed list \<Rightarrow> tx list" where
  "linkAll ps ss =
     (let st = linkPurchases (salesByAssetId ss) ps ({}, [])
      in snd st @ emitReceived (fst st) ss)"

definition parseMarketHistory :: "string \<Rightarrow> history option \<Rightarrow> error + parse_result" where
  "parseMarketHistory mySteamId h =
     (case h of
        None \<Rightarrow> Inl InvalidHistory
      | Some hist \<Rightarrow>
          (case purchases hist of
             None \<Rightarrow> Inl TypeError
           | Some es \<Rightarrow>
               (let ps = accountPurchases mySteamId (assets hist) es;
                    ss = accountSales mySteamId (assets hist) es;
                    txs = linkAll ps ss;
                    stats = foldl countStep \<lparr>completed = 0, uncompleted = 0, received = 0\<rparr> txs
                in Inr \<lparr> transactions = txs,
                         purchases_count = length ps,
                         completed_purchases_count = completed stats,
                         uncompleted_purchases_count = uncompleted stats,
                         sales_count = length ss,
                         received_sales_count = received stats,
                         totalTransactions = length ps + length ss \<rparr>)))"

section \<open>Numbers\<close>

text \<open>
  Amounts are integers of magnitude below \<open>2 ^ 53\<close>, on which the sums and
  differences of the source are exact. The quotients and products behind the percentages
  are not exact: the source computes them in IEEE 754 doubles, and each operation rounds
  its exact result to the nearest double, a tie going to the even significand. A double
  is kept here as the fraction it is, a numerator over a denominator that is a power of
  two. For a quotient of two such integers, and for its product with 100, the exponent
  stays far inside the range of a double, so that rounding to 53 significant bits is all
  there is to model.
\<close>

type_synonym dbl = "int \<times> int"

definition dbl_value :: "dbl \<Rightarrow> rat" where
  "dbl_value x = of_int (fst x) / of_int (snd x)"

text \<open>The integer nearest to \<open>a / b\<close> for \<open>b > 0\<close>, the even one on a tie.\<close>

definition roundHalfEven :: "int \<Rightarrow> int \<Rightarrow> int" where
  "roundHalfEven a b =
     (let q = a div b; r = a mod b
      in if 2 * r < b then q else if b < 2 * r then q + 1 else if even q then q else q + 1)"

text \<open>
  For \<open>a > 0\<close> and \<open>b > 0\<close>, the exponent \<open>e\<close> that puts \<open>a / b\<close> between
  \<open>2 ^ 52\<close> and \<open>2 ^ 53\<close> times \<open>2 ^ e\<close>: the exponent of the last of the 53
  bits.
\<close>

definition binaryExponent :: "int \<Rightarrow> int \<Rightarrow> int" where
  "binaryExponent a b =
     (let k = bitlen a - bitlen b
      in if (if 0 \<le> k then b * 2 ^ nat k \<le> a else b \<le> a * 2 ^ nat (- k)) then k - 52 else k - 53)"

definition roundPositive :: "int \<Rightarrow> int \<Rightarrow> dbl" where
  "roundPositive a b =
     (let e = binaryExponent a b
      in if 0 \<le> e then (roundHalfEven a (b * 2 ^ nat e) * 2 ^ nat e, 1)
         else (roundHalfEven (a * 2 ^ nat (- e)) b, 2 ^ nat (- e)))"

text \<open>
  The double nearest to \<open>a / b\<close>, for \<open>b > 0\<close>: the quotient \<^verbatim>\<open>a / b\<close> of two
  integers, and the rounding of any exact result \<open>a / b\<close>. Every division of the source
  is guarded by \<open>b > 0\<close>.
\<close>

definition roundDouble :: "int \<Rightarrow> int \<Rightarrow> dbl" where
  "roundDouble a b =
     (if a = 0 then (0, 1)
      else if a < 0 then (- fst (roundPositive (- a) b), snd (roundPositive (- a) b))
      else roundPositive a b)"

text \<open>\<^verbatim>\<open>x * 100\<close> for a double \<open>x\<close>.\<close>

definition js_times_100 :: "dbl \<Rightarrow> dbl" where
  "js_times_100 x = roundDouble (fst x * 100) (snd x)"

text \<open>
  \<^verbatim>\<open>x.toFixed(2)\<close> picks the integer \<open>n\<close> with \<open>n / 100\<close> nearest to the exact
  value of the double \<open>x\<close>, the larger one on a tie, after taking the sign off.
\<close>

definition hundredths :: "dbl \<Rightarrow> int" where
  "hundredths x =
     (if fst x < 0 then - ((200 * (- fst x) + snd x) div (2 * snd x))
      else (200 * fst x + snd x) div (2 * snd x))"

definition digit_char :: "nat \<Rightarrow> char" where
  "digit_char n = ''0123456789'' ! (n mod 10)"

fun digits :: "nat \<Rightarrow> string" where
  "digits n = (if n < 10 then [digit_char n] else digits (n div 10) @ [digit_char n])"

declare digits.simps [simp del]

text \<open>The string \<^verbatim>\<open>x.toFixed(2)\<close>.\<close>

definition toFixed2 :: "dbl \<Rightarrow> string" where
  "toFixed2 x =
     (let m = nat \<bar>hundredths x\<bar>
      in (if fst x < 0 then ''-'' else []) @ digits (m div 100) @ ''.''
           @ [digit_char (m div 10), digit_char m])"

text \<open>
  The number \<^verbatim>\<open>Number(x.toFixed(2))\<close> and \<^verbatim>\<open>parseFloat(x.toFixed(2))\<close>, named by
  the two-decimal number it prints as.
\<close>

definition toFixed2_number :: "dbl \<Rightarrow> rat" where
  "toFixed2_number x = of_int (hundredths x) / 100"

text \<open>A number that may be \<^verbatim>\<open>NaN\<close>; \<^verbatim>\<open>NaN\<close> absorbs addition and subtraction.\<close>

datatype 'a jsnum = Num 'a | NaN

definition js_add :: "int jsnum \<Rightarrow> int jsnum \<Rightarrow> int jsnum" where
  "js_add a b = (case (a, b) of (Num x, Num y) \<Rightarrow> Num (x + y) | _ \<Rightarrow> NaN)"

definition js_sub :: "int jsnum \<Rightarrow> int jsnum \<Rightarrow> int jsnum" where
  "js_sub a b = (case (a, b) of (Num x, Num y) \<Rightarrow> Num (x - y) | _ \<Rightarrow> NaN)"

text \<open>A numeric field read with no default: absent is \<^verbatim>\<open>undefined\<close>, which
  arithmetic turns into \<^verbatim>\<open>NaN\<close>.\<close>

definition to_number :: "int option \<Rightarrow> int jsnum" where
  "to_number a = (case a of None \<Rightarrow> NaN | Some n \<Rightarrow> Num n)"

section \<open>The holdings matcher\<close>

record inventory_item =
  inv_assetid :: string
  icon_url :: "string option"

record match_item =
  m_appid :: "string option"
  m_assetid :: "string option"
  m_market_hash_name :: string
  m_paid_amount :: int
  m_paid_fee :: int
  m_paid_total :: int
  m_currencyid :: "string option"
  m_time_sold :: "int option"
  m_transaction_id :: string
  m_transaction_status :: string
  m_icon_url :: "string option"
  m_market_name :: "string option"
  match_type :: string

text \<open>The nested \<^verbatim>\<open>statistics\<close> object is flattened into the result record.\<close>

record match_result =
  matched :: "match_item list"
  unmatched :: "match_item list"
  total_purchases :: nat
  matched_count :: nat
  unmatched_count :: nat
  matched_percentage :: string
  unmatched_percentage :: string

definition eligible :: "tx \<Rightarrow> bool" where
  "eligible t = (role t = ''purchase'' \<and> truthy (new_id (purchase t)))"

definition matchedItem :: "tx \<Rightarrow> inventory_item \<Rightarrow> match_item" where
  "matchedItem t linkedInventoryItem =
     \<lparr> m_appid = appid (purchase t),
       m_assetid = new_id (purchase t),
       m_market_hash_name = market_name (purchase t),
       m_paid_amount = paid_amount (purchase t),
       m_paid_fee = paid_fee (purchase t),
       m_paid_total = paid_total (purchase t),
       m_currencyid = currencyid (purchase t),
       m_time_sold = time_sold (purchase t),
       m_transaction_id = transaction_id t,
       m_transaction_status = transaction_status t,
       m_icon_url = icon_url linkedInventoryItem,
       m_market_name = None,
       match_type = ''purchased'' \<rparr>"

definition unmatchedItem :: "tx \<Rightarrow> match_item" where
  "unmatchedItem t =
     \<lparr> m_appid = appid (purchase t),
       m_assetid = new_id (purchase t),
       m_market_hash_name = market_name (purchase t),
       m_paid_amount = paid_amount (purchase t),
       m_paid_fee = paid_fee (purchase t),
       m_paid_total = paid_total (purchase t),
       m_currencyid = currencyid (purchase t),
       m_time_sold = time_sold (purchase t),
       m_transaction_id = transaction_id t,
       m_transaction_status = transaction_status t,
       m_icon_url = None,
       m_market_name = Some (market_name (purchase t)),
       match_type = ''other_source'' \<rparr>"

definition inventoryMap :: "inventory_item list \<Rightarrow> (string \<rightharpoonup> inventory_item)" where
  "inventoryMap inventory = Map_new (map (\<lambda>item. (inv_assetid item, item)) inventory)"

fun matchLoop ::
  "(string \<rightharpoonup> inventory_item) \<Rightarrow> tx list \<Rightarrow> match_item list \<times> match_item list
     \<Rightarrow> match_item list \<times> match_item list"
where
  "matchLoop im [] acc = acc"
| "matchLoop im (t # ts) (ma, un) =
     (case im (String (new_id (purchase t))) of
        Some linkedInventoryItem \<Rightarrow> matchLoop im ts (ma @ [matchedItem t linkedInventoryItem], un)
      | None \<Rightarrow> matchLoop im ts (ma, un @ [unmatchedItem t]))"

definition percentage :: "nat \<Rightarrow> nat \<Rightarrow> string" where
  "percentage n tot =
     (if tot \<noteq> 0 then toFixed2 (js_times_100 (roundDouble (int n) (int tot))) @ ''%''
      else ''0%'')"

definition matchInventoryWithPurchases :: "tx list \<Rightarrow> inventory_item list \<Rightarrow> match_result" where
  "matchInventoryWithPurchases txs inventory =
     (let ps = filter eligible txs;
          res = matchLoop (inventoryMap inventory) ps ([], []);
          tot = length ps
      in \<lparr> matched = fst res,
           unmatched = snd res,
           total_purchases = tot,
           matched_count = length (fst res),
           unmatched_count = length (snd res),
           matched_percentage = percentage (length (fst res)) tot,
           unmatched_percentage = percentage (length (snd res)) tot \<rparr>)"

section \<open>The ROI calculator\<close>

text \<open>
  The argument of \<^verbatim>\<open>calculateROI\<close> is any JavaScript value: an array, or one of
  the values that \<^verbatim>\<open>Array.isArray\<close> rejects, a string among them. An element of
  the array is \<^verbatim>\<open>null\<close> or \<^verbatim>\<open>undefined\<close>, or a record with no
  \<^verbatim>\<open>purchase\<close> object, of which the calculator reads the four fields of
  \<open>tx_head\<close>, or a transaction record as the parser builds it.
\<close>

record tx_head =
  head_role :: string
  head_status :: string
  head_purchase_id :: string
  head_linked_sale_id :: "string option"

datatype js_elem = JsNullElem | JsNoPurchase tx_head | JsTx tx

datatype 'a js_arg = JsUndefined | JsNull | JsNumber int | JsString string | JsObject
  | JsArray "'a list"

definition isArray :: "'a js_arg \<Rightarrow> bool" where
  "isArray arg = (case arg of JsArray xs \<Rightarrow> True | _ \<Rightarrow> False)"

definition headOf :: "tx \<Rightarrow> tx_head" where
  "headOf t =
     \<lparr> head_role = role t, head_status = transaction_status t,
       head_purchase_id = purchase_id t, head_linked_sale_id = linked_sale_id t \<rparr>"

text \<open>Reading a field of an element: \<open>None\<close> is the \<^verbatim>\<open>TypeError\<close> of reading a
  property of \<^verbatim>\<open>null\<close> or \<^verbatim>\<open>undefined\<close>.\<close>

definition elemHead :: "js_elem \<Rightarrow> tx_head option" where
  "elemHead x =
     (case x of JsNullElem \<Rightarrow> None | JsNoPurchase h \<Rightarrow> Some h | JsTx t \<Rightarrow> Some (headOf t))"

record roi_record =
  roi_transaction_id :: string
  roi_market_name :: string
  roi_appid :: "string option"
  buy_price :: int
  sell_price :: int
  profit :: int
  roi_percent :: rat
  time_purchase :: "int option"
  time_sale :: "int option"
  purchase_raw :: parsed
  sale_raw :: parsed

text \<open>
  The entries of \<^verbatim>\<open>salesMap\<close>, lines 241 to 245: the filter reads
  \<^verbatim>\<open>t.role\<close> of every element in turn.
\<close>

fun saleEntries :: "js_elem list \<Rightarrow> error + (string \<times> js_elem) list" where
  "saleEntries [] = Inr []"
| "saleEntries (x # xs) =
     (case elemHead x of
        None \<Rightarrow> Inl TypeError
      | Some h \<Rightarrow>
          (case saleEntries xs of
             Inl e \<Rightarrow> Inl e
           | Inr es \<Rightarrow> Inr (if head_role h = ''sale'' then (head_purchase_id h, x) # es else es)))"

text \<open>The record pushed for a purchase and its sale, lines 258 to 278.\<close>

definition roiRecord :: "tx \<Rightarrow> tx \<Rightarrow> roi_record" where
  "roiRecord purchaseTx saleTx =
     (let buy = purchase purchaseTx;
          sell = purchase saleTx;
          buyPrice = paid_total buy;
          sellPrice = num_or_0 (received_amount (raw sell));
          profit = sellPrice - buyPrice;
          roi = (if buyPrice > 0 then js_times_100 (roundDouble profit buyPrice) else (0, 1))
      in \<lparr> roi_transaction_id = purchase_id purchaseTx,
           roi_market_name = market_name buy,
           roi_appid = appid buy,
           buy_price = buyPrice,
           sell_price = sellPrice,
           profit = profit,
           roi_percent = toFixed2_number roi,
           time_purchase = num_or_null (time_sold buy),
           time_sale = num_or_null (time_sold sell),
           purchase_raw = buy,
           sale_raw = sell \<rparr>)"

text \<open>
  One turn of the loop, lines 247 to 279: \<open>Inr None\<close> is \<^verbatim>\<open>continue\<close>. Reading
  \<^verbatim>\<open>buy.paid_total\<close> or \<^verbatim>\<open>sell.raw\<close> raises a \<^verbatim>\<open>TypeError\<close> when the
  purchase record or the sale record has no \<^verbatim>\<open>purchase\<close> object.
\<close>

definition elemStep :: "(string \<rightharpoonup> js_elem) \<Rightarrow> js_elem \<Rightarrow> error + roi_record option" where
  "elemStep sm purchaseTx =
     (case elemHead purchaseTx of
        None \<Rightarrow> Inl TypeError
      | Some h \<Rightarrow>
          if head_role h \<noteq> ''purchase'' \<or> head_status h \<noteq> ''completed'' then Inr None
          else if \<not> truthy (head_linked_sale_id h) then Inr None
          else (case sm (String (head_linked_sale_id h)) of
                  None \<Rightarrow> Inr None
                | Some saleTx \<Rightarrow>
                    (case (purchaseTx, saleTx) of
                       (JsTx p, JsTx s) \<Rightarrow> Inr (Some (roiRecord p s))
                     | _ \<Rightarrow> Inl TypeError)))"

fun elemLoop ::
  "(string \<rightharpoonup> js_elem) \<Rightarrow> js_elem list \<Rightarrow> roi_record list \<Rightarrow> error + roi_record list"
where
  "elemLoop sm [] results = Inr results"
| "elemLoop sm (x # xs) results =
     (case elemStep sm x of
        Inl e \<Rightarrow> Inl e
      | Inr None \<Rightarrow> elemLoop sm xs results
      | Inr (Some r) \<Rightarrow> elemLoop sm xs (results @ [r]))"

definition calculateROI :: "js_elem js_arg \<Rightarrow> error + roi_record list" where
  "calculateROI arg =
     (case arg of
        JsArray xs \<Rightarrow>
          (case saleEntries xs of
             Inl e \<Rightarrow> Inl e
           | Inr es \<Rightarrow> elemLoop (Map_new es) xs [])
      | _ \<Rightarrow> Inl NotAnArrayError)"

section \<open>The statistics aggregator\<close>

record item_stat =
  marketName :: string
  item_totalInvested :: int
  item_totalReceived :: "int jsnum"
  purchaseCount :: nat
  saleCount :: nat
  completedCount :: nat
  receivedCount :: nat
  uncomletedCount :: nat

record stats_state =
  run_totalInvested :: int
  run_totalReceived :: "int jsnum"
  itemStats :: "string \<rightharpoonup> item_stat"

record overall =
  totalInvested :: int
  totalReceived :: "int jsnum"
  totalProfit :: "int jsnum"
  roiPercent :: "rat jsnum"
  overall_totalTransactions :: nat
  purchasesCount :: nat
  salesCount :: nat
  completedPurchases :: nat
  uncomletedPurchases :: nat
  receivedSales :: nat

definition newItemStat :: "string \<Rightarrow> item_stat" where
  "newItemStat name =
     \<lparr> marketName = name, item_totalInvested = 0, item_totalReceived = Num 0,
       purchaseCount = 0, saleCount = 0, completedCount = 0, receivedCount = 0,
       uncomletedCount = 0 \<rparr>"

text \<open>
  \<^verbatim>\<open>new Date(time_sold * 1000).toISOString()\<close> raises a \<^verbatim>\<open>RangeError\<close> outside
  the range of dates; \<^verbatim>\<open>null * 1000\<close> is \<open>0\<close>. The per-item trace that this string
  goes into is neither read nor returned, so only the exception is kept of it.
\<close>

definition validDate :: "int option \<Rightarrow> bool" where
  "validDate t = (\<bar>num_or_0 t * 1000\<bar> \<le> 8640000000000000)"

definition purchaseStat :: "tx \<Rightarrow> item_stat \<Rightarrow> item_stat" where
  "purchaseStat t i =
     (let i1 = i\<lparr> item_totalInvested := item_totalInvested i + paid_total (purchase t),
                  purchaseCount := purchaseCount i + 1 \<rparr>
      in if transaction_status t = ''completed'' then i1\<lparr>completedCount := completedCount i1 + 1\<rparr>
         else if transaction_status t = ''uncompleted''
           then i1\<lparr>uncomletedCount := uncomletedCount i1 + 1\<rparr>
         else i1)"

definition saleStat :: "tx \<Rightarrow> item_stat \<Rightarrow> item_stat" where
  "saleStat t i =
     (let i1 = i\<lparr> item_totalReceived :=
                    js_add (item_totalReceived i) (to_number (received_amount (raw (purchase t)))),
                  saleCount := saleCount i + 1 \<rparr>
      in if transaction_status t = ''received'' then i1\<lparr>receivedCount := receivedCount i1 + 1\<rparr>
         else i1)"

definition statStep :: "stats_state \<Rightarrow> tx \<Rightarrow> error + stats_state" where
  "statStep st t =
     (let name = market_name (purchase t);
          itemStat = (case itemStats st name of None \<Rightarrow> newItemStat name | Some i \<Rightarrow> i)
      in if role t = ''purchase'' then
           (if validDate (tx_time_sold t) then
              Inr (st\<lparr> run_totalInvested := run_totalInvested st + paid_total (purchase t),
                        itemStats := (itemStats st)(name \<mapsto> purchaseStat t itemStat) \<rparr>)
            else Inl RangeError)
         else if role t = ''sale'' then
           (if validDate (tx_time_sold t) then
              Inr (st\<lparr> run_totalReceived :=
                          js_add (run_totalReceived st) (to_number (received_amount (raw (purchase t)))),
                        itemStats := (itemStats st)(name \<mapsto> saleStat t itemStat) \<rparr>)
            else Inl RangeError)
         else Inr (st\<lparr> itemStats := (itemStats st)(name \<mapsto> itemStat) \<rparr>))"

fun statLoop :: "stats_state \<Rightarrow> tx list \<Rightarrow> error + stats_state" where
  "statLoop st [] = Inr st"
| "statLoop st (t # ts) = (case statStep st t of Inl e \<Rightarrow> Inl e | Inr st' \<Rightarrow> statLoop st' ts)"

definition initialStats :: stats_state where
  "initialStats = \<lparr> run_totalInvested = 0, run_totalReceived = Num 0, itemStats = Map.empty \<rparr>"

definition overallROI :: "int \<Rightarrow> int jsnum \<Rightarrow> rat jsnum" where
  "overallROI invested gain =
     (if invested > 0 then
        (case gain of
           NaN \<Rightarrow> NaN
         | Num p \<Rightarrow> Num (toFixed2_number (js_times_100 (roundDouble p invested))))
      else Num 0)"

definition calculateTransactionStatistics :: "parse_result \<Rightarrow> error + overall" where
  "calculateTransactionStatistics data =
     (case statLoop initialStats (transactions data) of
        Inl e \<Rightarrow> Inl e
      | Inr st \<Rightarrow>
          (let totalProfit = js_sub (run_totalReceived st) (Num (run_totalInvested st))
           in Inr \<lparr> totalInvested = run_totalInvested st,
                    totalReceived = run_totalReceived st,
                    totalProfit = totalProfit,
                    roiPercent = overallROI (run_totalInvested st) totalProfit,
                    overall_totalTransactions = length (transactions data),
                    purchasesCount = purchases_count data,
                    salesCount = sales_count data,
                    completedPurchases = completed_purchases_count data,
                    uncomletedPurchases = uncompleted_purchases_count data,
                    receivedSales = received_sales_count data \<rparr>))"

section \<open>Auxiliary definitions\<close>

text \<open>What one purchase adds to the transaction list, and the ids the loop marks.\<close>

definition linkOne :: "(string \<rightharpoonup> parsed) \<Rightarrow> parsed \<Rightarrow> tx list" where
  "linkOne idx p =
     (case idx (String (new_id p)) of
        Some s \<Rightarrow> [purchaseCompleted p s, saleCompleted p s]
      | None \<Rightarrow> [purchaseUncompleted p])"

definition matchedIds :: "(string \<rightharpoonup> parsed) \<Rightarrow> parsed list \<Rightarrow> string set" where
  "matchedIds idx ps = {id_key s | s p. p \<in> set ps \<and> idx (String (new_id p)) = Some s}"

text \<open>The records that refer to a given sale.\<close>

definition completedSaleFor :: "parsed \<Rightarrow> tx \<Rightarrow> bool" where
  "completedSaleFor s t =
     (role t = ''sale'' \<and> transaction_status t = ''completed'' \<and> purchase t = s)"

definition receivedFor :: "parsed \<Rightarrow> tx \<Rightarrow> bool" where
  "receivedFor s t = (transaction_status t = ''received'' \<and> purchase t = s)"

text \<open>Whether a purchase hits the sales index.\<close>

definition hit :: "(string \<rightharpoonup> parsed) \<Rightarrow> parsed \<Rightarrow> bool" where
  "hit idx p = (idx (String (new_id p)) \<noteq> None)"

text \<open>The post-disposal ids, in input order, of the purchases that hit the sales index.\<close>

definition linkedKeys :: "(string \<rightharpoonup> parsed) \<Rightarrow> parsed list \<Rightarrow> string list" where
  "linkedKeys idx ps =
     map (\<lambda>p. String (new_id p)) (filter (\<lambda>p. idx (String (new_id p)) \<noteq> None) ps)"

text \<open>
  On an array of well-formed records the calculator is the following: the index of the
  sale records, and one turn of the loop, \<open>None\<close> being \<^verbatim>\<open>continue\<close>.
\<close>

definition salesMap :: "tx list \<Rightarrow> (string \<rightharpoonup> tx)" where
  "salesMap txs = Map_new (map (\<lambda>t. (purchase_id t, t)) (filter (\<lambda>t. role t = ''sale'') txs))"

definition roiStep :: "(string \<rightharpoonup> tx) \<Rightarrow> tx \<Rightarrow> roi_record option" where
  "roiStep sm purchaseTx =
     (if role purchaseTx \<noteq> ''purchase'' \<or> transaction_status purchaseTx \<noteq> ''completed''
      then None
      else if \<not> truthy (linked_sale_id purchaseTx) then None
      else (case sm (String (linked_sale_id purchaseTx)) of
              None \<Rightarrow> None
            | Some saleTx \<Rightarrow> Some (roiRecord purchaseTx saleTx)))"

text \<open>
  Reading a percentage string back: the hundredths of a percent that a string of the
  form \<open>digits.dd%\<close> denotes, and \<open>None\<close> for any other string.
\<close>

definition digit_value :: "char \<Rightarrow> nat option" where
  "digit_value c = map_of (zip ''0123456789'' [0..<10]) c"

fun read_digits :: "nat \<Rightarrow> string \<Rightarrow> nat option" where
  "read_digits acc [] = Some acc"
| "read_digits acc (c # cs) =
     (case digit_value c of None \<Rightarrow> None | Some v \<Rightarrow> read_digits (10 * acc + v) cs)"

definition percentValue :: "string \<Rightarrow> nat option" where
  "percentValue s =
     (let whole = takeWhile (\<lambda>c. c \<noteq> CHR ''.'') s
      in case dropWhile (\<lambda>c. c \<noteq> CHR ''.'') s of
           [dot, d1, d2, pc] \<Rightarrow>
             (if pc = CHR ''%'' \<and> whole \<noteq> [] then
                (case (read_digits 0 whole, digit_value d1, digit_value d2) of
                   (Some i, Some a, Some b) \<Rightarrow> Some (100 * i + 10 * a + b)
                 | _ \<Rightarrow> None)
              else None)
         | _ \<Rightarrow> None)"

text \<open>A completed purchase record whose sale record has no \<^verbatim>\<open>purchase\<close> object.\<close>

definition bareSale :: js_elem where
  "bareSale =
     JsNoPurchase \<lparr> head_role = ''sale'', head_status = ''completed'',
                    head_purchase_id = ''s1'', head_linked_sale_id = None \<rparr>"

subsection \<open>Example ledgers\<close>

definition exampleEntry ::
  "string \<Rightarrow> string \<Rightarrow> string option \<Rightarrow> int \<Rightarrow> int option \<Rightarrow> raw_entry" where
  "exampleEntry purchaser aid nid paid recv =
     \<lparr> raw_steamid_purchaser = Some purchaser,
       raw_asset = Some \<lparr> asset_appid = Some ''730'', asset_contextid = Some ''2'',
                          asset_id = Some aid, asset_new_id = nid \<rparr>,
       raw_market_name = None,
       raw_paid_amount = Some paid,
       raw_paid_fee = None,
       raw_currencyid = Some ''1'',
       raw_time_sold = Some 1700000000,
       received_amount = recv,
       received_currencyid = Some ''1'' \<rparr>"

definition entryP1 :: "string \<times> raw_entry" where
  "entryP1 = (''p1'', exampleEntry ''me'' ''X'' (Some ''X2'') 10 None)"

definition entryP2 :: "string \<times> raw_entry" where
  "entryP2 = (''p2'', exampleEntry ''me'' ''Y'' (Some ''X2'') 12 None)"

definition entryS1 :: "string \<times> raw_entry" where
  "entryS1 = (''s1'', exampleEntry ''other'' ''X2'' None 17 (Some 15))"

text \<open>Scenario A of the specification: one purchase, and the sale that disposed of it.\<close>

definition scenarioA :: history where
  "scenarioA = \<lparr> purchases = Some [entryP1, entryS1], assets = None \<rparr>"

text \<open>Two purchases with the post-disposal id of one sale.\<close>

definition sharedIdLedger :: history where
  "sharedIdLedger = \<lparr> purchases = Some [entryP1, entryP2, entryS1], assets = None \<rparr>"

text \<open>A second sale with the asset id of the first.\<close>

definition entryS9 :: "string \<times> raw_entry" where
  "entryS9 = (''s9'', exampleEntry ''other'' ''X2'' None 20 (Some 18))"

definition twoSalesLedger :: history where
  "twoSalesLedger = \<lparr> purchases = Some [entryP1, entryP2, entryS1, entryS9], assets = None \<rparr>"

definition parsedS9 :: parsed where
  "parsedS9 = parseEntry ''me'' None entryS9"

definition parsedP1 :: parsed where
  "parsedP1 = parseEntry ''me'' None entryP1"

definition parsedP2 :: parsed where
  "parsedP2 = parseEntry ''me'' None entryP2"

definition parsedS1 :: parsed where
  "parsedS1 = parseEntry ''me'' None entryS1"

text \<open>Projections of a parser outcome, for stating what a concrete ledger gives.\<close>

definition resultOf :: "error + parse_result \<Rightarrow> parse_result" where
  "resultOf res =
     (case res of
        Inr r \<Rightarrow> r
      | Inl e \<Rightarrow> \<lparr> transactions = [], purchases_count = 0, completed_purchases_count = 0,
                    uncompleted_purchases_count = 0, sales_count = 0, received_sales_count = 0,
                    totalTransactions = 0 \<rparr>)"

definition statusesOf :: "error + parse_result \<Rightarrow> (string \<times> string) list" where
  "statusesOf res =
     (case res of Inl e \<Rightarrow> []
      | Inr r \<Rightarrow> map (\<lambda>t. (transaction_id t, transaction_status t)) (transactions r))"


text \<open>A linked pair, a purchase with no sale (scenario B) and a sale with no purchase
  (scenario C).\<close>

definition entryP3 :: "string \<times> raw_entry" where
  "entryP3 = (''p3'', exampleEntry ''me'' ''Y'' (Some ''Y2'') 20 None)"

definition entryS2 :: "string \<times> raw_entry" where
  "entryS2 = (''s2'', exampleEntry ''other'' ''Z9'' None 9 (Some 8))"

definition mixedLedger :: history where
  "mixedLedger = \<lparr> purchases = Some [entryP1, entryP3, entryS1, entryS2], assets = None \<rparr>"

definition parsedP3 :: parsed where
  "parsedP3 = parseEntry ''me'' None entryP3"

definition parsedS2 :: parsed where
  "parsedS2 = parseEntry ''me'' None entryS2"

text \<open>The length of the transaction list, then the five counts of the result.\<close>

definition countsOf :: "error + parse_result \<Rightarrow> nat list" where
  "countsOf res =
     (case res of Inl e \<Rightarrow> []
      | Inr r \<Rightarrow> [length (transactions r), purchases_count r, sales_count r,
                   completed_purchases_count r, uncompleted_purchases_count r,
                   received_sales_count r])"

text \<open>The identifier, prices, profit and ROI percent of each ROI record.\<close>

definition roiSummary :: "error + roi_record list \<Rightarrow> (string \<times> int \<times> int \<times> int \<times> rat) list" where
  "roiSummary res =
     (case res of Inl e \<Rightarrow> []
      | Inr rs \<Rightarrow> map (\<lambda>r. (roi_transaction_id r, buy_price r, sell_price r, profit r, roi_percent r)) rs)"

text \<open>The per-item received total of a display name is \<^verbatim>\<open>NaN\<close>.\<close>

definition itemNaN :: "stats_state \<Rightarrow> string \<Rightarrow> bool" where
  "itemNaN st name = (\<exists>i. itemStats st name = Some i \<and> item_totalReceived i = NaN)"

text \<open>A purchase that cost nothing, and its sale.\<close>

definition entryP0 :: "string \<times> raw_entry" where
  "entryP0 = (''p0'', exampleEntry ''me'' ''F'' (Some ''F2'') 0 None)"

definition entryS0 :: "string \<times> raw_entry" where
  "entryS0 = (''s0'', exampleEntry ''other'' ''F2'' None 6 (Some 5))"

definition freeLedger :: history where
  "freeLedger = \<lparr> purchases = Some [entryP0, entryS0], assets = None \<rparr>"

text \<open>The sale of scenario A with no \<^verbatim>\<open>received_amount\<close> field.\<close>

definition entryS1n :: "string \<times> raw_entry" where
  "entryS1n = (''s1'', exampleEntry ''other'' ''X2'' None 17 None)"

definition noAmountLedger :: history where
  "noAmountLedger = \<lparr> purchases = Some [entryP1, entryS1n], assets = None \<rparr>"

text \<open>An entry that carries its own market name, in a ledger with no catalog.\<close>

definition entryNamed :: "string \<times> raw_entry" where
  "entryNamed = (''p9'', (exampleEntry ''me'' ''N'' None 10 None)\<lparr>raw_market_name := Some ''AK-47''\<rparr>)"

definition parsedNamed :: parsed where
  "parsedNamed = parseEntry ''me'' None entryNamed"

definition namedLedger :: history where
  "namedLedger = \<lparr> purchases = Some [entryNamed, entryP1], assets = None \<rparr>"

text \<open>The display names of the transaction list.\<close>

definition namesOf :: "error + parse_result \<Rightarrow> string list" where
  "namesOf res =
     (case res of Inl e \<Rightarrow> []
      | Inr r \<Rightarrow> map (\<lambda>t. market_name (purchase t)) (transactions r))"

definition parsedP0 :: parsed where
  "parsedP0 = parseEntry ''me'' None entryP0"

definition parsedS0 :: parsed where
  "parsedS0 = parseEntry ''me'' None entryS0"

definition parsedS1n :: parsed where
  "parsedS1n = parseEntry ''me'' None entryS1n"

section \<open>The linking loop in closed form\<close>

lemma linkPurchases_closed:
  "linkPurchases idx ps (ms, txs) = (ms \<union> matchedIds idx ps, txs @ concat (map (linkOne idx) ps))"
proof (induction ps arbitrary: ms txs)
  case Nil
  then show ?case by (simp add: matchedIds_def)
next
  case (Cons p ps)
  show ?case
  proof (cases "idx (String (new_id p))")
    case None
    have "matchedIds idx (p # ps) = matchedIds idx ps"
      using None by (auto simp: matchedIds_def)
    then show ?thesis using None Cons.IH by (simp add: linkOne_def)
  next
    case (Some s)
    have "matchedIds idx (p # ps) = insert (id_key s) (matchedIds idx ps)"
      using Some by (auto simp: matchedIds_def)
    then show ?thesis using Some Cons.IH by (simp add: linkOne_def)
  qed
qed

lemma linkAll_closed:
  "linkAll ps ss =
     concat (map (linkOne (salesByAssetId ss)) ps) @ emitReceived (matchedIds (salesByAssetId ss) ps) ss"
  by (simp add: linkAll_def linkPurchases_closed)

lemma salesByAssetId_SomeD:
  "salesByAssetId ss k = Some s \<Longrightarrow> s \<in> set ss \<and> String (assetid s) = k \<and> truthy (assetid s)"
  unfolding salesByAssetId_def Map_new_def
  by (auto dest!: map_of_SomeD)

lemma id_key_parseEntry [simp]: "id_key (parseEntry me cat kv) = fst kv"
  by (simp add: parseEntry_def Let_def)

lemma distinct_accountSales:
  "distinct (map fst es) \<Longrightarrow> distinct (map id_key (accountSales me cat es))"
  by (simp add: accountSales_def comp_def distinct_map_filter)

lemma distinct_accountPurchases:
  "distinct (map fst es) \<Longrightarrow> distinct (map id_key (accountPurchases me cat es))"
  by (simp add: accountPurchases_def comp_def distinct_map_filter)

lemma Map_new_last:
  "Map_new (map (\<lambda>x. (f x, x)) xs) k
     = (if filter (\<lambda>x. f x = k) xs = [] then None else Some (last (filter (\<lambda>x. f x = k) xs)))"
  by (induction xs rule: rev_induct) (simp_all add: Map_new_def)

lemma salesByAssetId_last:
  assumes "salesByAssetId ss k = Some s"
  shows "s = last (filter (\<lambda>x. truthy (assetid x) \<and> String (assetid x) = k) ss)"
proof -
  have f: "filter (\<lambda>x. String (assetid x) = k) (filter (\<lambda>x. truthy (assetid x)) ss)
      = filter (\<lambda>x. truthy (assetid x) \<and> String (assetid x) = k) ss"
    by (simp add: conj_commute)
  from assms show ?thesis
    unfolding salesByAssetId_def Map_new_last f by (simp split: if_splits)
qed

lemma twoSales_parse:
  "parseMarketHistory ''me'' (Some twoSalesLedger)
     = Inr (resultOf (parseMarketHistory ''me'' (Some twoSalesLedger)))"
  by (simp add: twoSalesLedger_def parseMarketHistory_def resultOf_def Let_def)

lemma salesByAssetId_hit:
  assumes "s0 \<in> set ss" "truthy (assetid s0)"
  shows "\<exists>s. salesByAssetId ss (String (assetid s0)) = Some s"
proof -
  let ?xs = "rev (map (\<lambda>s. (String (assetid s), s)) (filter (\<lambda>s. truthy (assetid s)) ss))"
  have "String (assetid s0) \<in> fst ` set ?xs"
    using assms by force
  then have "map_of ?xs (String (assetid s0)) \<noteq> None"
    by (simp only: map_of_eq_None_iff not_not)
  then show ?thesis
    by (auto simp: salesByAssetId_def Map_new_def)
qed

lemma linkOne_hit:
  "idx (String (new_id p)) = Some s \<Longrightarrow> linkOne idx p = [purchaseCompleted p s, saleCompleted p s]"
  by (simp add: linkOne_def)

lemma linkOne_miss:
  "idx (String (new_id p)) = None \<Longrightarrow> linkOne idx p = [purchaseUncompleted p]"
  by (simp add: linkOne_def)

lemma purchase_legs_linkOne:
  "map purchase (filter (\<lambda>t. role t = ''purchase'') (linkOne idx p)) = [p]"
  by (cases "idx (String (new_id p))")
     (simp_all add: linkOne_def purchaseCompleted_def saleCompleted_def purchaseUncompleted_def)

lemma purchase_legs_links:
  "map purchase (filter (\<lambda>t. role t = ''purchase'') (concat (map (linkOne idx) ps))) = ps"
  by (induction ps) (simp_all add: purchase_legs_linkOne)

lemma purchase_legs_received:
  "filter (\<lambda>t. role t = ''purchase'') (emitReceived ms ss) = []"
  by (simp add: emitReceived_def saleReceived_def filter_empty_conv)

lemma purchase_legs_linkAll:
  "map purchase (filter (\<lambda>t. role t = ''purchase'') (linkAll ps ss)) = ps"
  by (simp add: linkAll_closed purchase_legs_links purchase_legs_received)

lemma completedSale_linkOne:
  "length (filter (completedSaleFor s) (linkOne idx p)) =
     (if idx (String (new_id p)) = Some s then 1 else 0)"
  by (cases "idx (String (new_id p))")
     (auto simp: linkOne_def completedSaleFor_def purchaseCompleted_def saleCompleted_def
        purchaseUncompleted_def)

lemma completedSale_links:
  "length (filter (completedSaleFor s) (concat (map (linkOne idx) ps))) =
     length (filter (\<lambda>p. idx (String (new_id p)) = Some s) ps)"
  by (induction ps) (simp_all add: completedSale_linkOne)

lemma completedSale_received:
  "filter (completedSaleFor s) (emitReceived ms ss) = []"
  by (simp add: emitReceived_def saleReceived_def completedSaleFor_def filter_empty_conv)

lemma completedSale_linkAll:
  "length (filter (completedSaleFor s) (linkAll ps ss)) =
     length (filter (\<lambda>p. salesByAssetId ss (String (new_id p)) = Some s) ps)"
  by (simp add: linkAll_closed completedSale_links completedSale_received)

lemma parse_transactions:
  assumes "parseMarketHistory me (Some h) = Inr r" "purchases h = Some es"
  shows "transactions r = linkAll (accountPurchases me (assets h) es) (accountSales me (assets h) es)"
  using assms by (auto simp: parseMarketHistory_def Let_def)

lemma linkAll_pair:
  assumes "p \<in> set ps" "salesByAssetId ss (String (new_id p)) = Some s"
  shows "\<exists>pre post. linkAll ps ss = pre @ [purchaseCompleted p s, saleCompleted p s] @ post"
proof -
  from assms(1) obtain xs ys where ps: "ps = xs @ p # ys"
    by (auto dest: split_list)
  let ?idx = "salesByAssetId ss"
  have "linkAll ps ss = concat (map (linkOne ?idx) xs) @ [purchaseCompleted p s, saleCompleted p s]
          @ (concat (map (linkOne ?idx) ys) @ emitReceived (matchedIds ?idx ps) ss)"
    unfolding linkAll_closed ps using assms(2) by (simp add: linkOne_hit)
  then show ?thesis by blast
qed

lemmas example_defs = entryP1_def entryP2_def entryS1_def exampleEntry_def scenarioA_def
  entryS9_def twoSalesLedger_def parsedS9_def
  sharedIdLedger_def parsedP1_def parsedP2_def parsedS1_def entryP3_def entryS2_def
  mixedLedger_def parsedP3_def parsedS2_def entryP0_def entryS0_def freeLedger_def entryS1n_def
  noAmountLedger_def entryNamed_def namedLedger_def parsedNamed_def parsedP0_def parsedS0_def parsedS1n_def

lemmas parse_defs = parseMarketHistory_def accountPurchases_def accountSales_def parseEntry_def
  isMyPurchase_def linkAll_def salesByAssetId_def Map_new_def emitReceived_def
  purchaseCompleted_def saleCompleted_def purchaseUncompleted_def saleReceived_def
  truthy_def String_def str_or_def str_or_null_def num_or_0_def num_or_null_def itemInfo_def
  countStep_def

lemma scenarioA_parse:
  "parseMarketHistory ''me'' (Some scenarioA)
     = Inr (resultOf (parseMarketHistory ''me'' (Some scenarioA)))"
  by (simp add: scenarioA_def parseMarketHistory_def resultOf_def Let_def)

lemma sharedId_parse:
  "parseMarketHistory ''me'' (Some sharedIdLedger)
     = Inr (resultOf (parseMarketHistory ''me'' (Some sharedIdLedger)))"
  by (simp add: sharedIdLedger_def parseMarketHistory_def resultOf_def Let_def)


section \<open>Received records and counts\<close>

lemma received_linkOne: "filter (receivedFor s) (linkOne idx p) = []"
  by (cases "idx (String (new_id p))")
     (simp_all add: linkOne_def receivedFor_def purchaseCompleted_def saleCompleted_def
        purchaseUncompleted_def)

lemma received_links: "filter (receivedFor s) (concat (map (linkOne idx) ps)) = []"
  by (induction ps) (simp_all add: received_linkOne)

lemma received_emit:
  "filter (receivedFor s) (emitReceived ms ss)
     = map saleReceived (filter (\<lambda>x. x = s \<and> id_key x \<notin> ms) ss)"
proof -
  have "receivedFor s \<circ> saleReceived = (\<lambda>x. x = s)"
    by (auto simp: receivedFor_def saleReceived_def fun_eq_iff)
  then show ?thesis
    by (simp add: emitReceived_def filter_map conj_commute)
qed

lemma filter_eq_distinct:
  assumes "distinct xs"
  shows "filter (\<lambda>x. x = s \<and> P x) xs = (if s \<in> set xs \<and> P s then [s] else [])"
  using assms by (induction xs) auto

lemma matchedIds_iff:
  assumes "distinct (map id_key ss)" "s \<in> set ss"
  shows "id_key s \<in> matchedIds (salesByAssetId ss) ps
           \<longleftrightarrow> (\<exists>p \<in> set ps. salesByAssetId ss (String (new_id p)) = Some s)"
proof
  assume "id_key s \<in> matchedIds (salesByAssetId ss) ps"
  then obtain s' p where sp: "p \<in> set ps" "salesByAssetId ss (String (new_id p)) = Some s'"
      "id_key s' = id_key s"
    by (auto simp: matchedIds_def)
  from sp(2) have "s' \<in> set ss" by (simp add: salesByAssetId_SomeD)
  moreover from assms(1) have "inj_on id_key (set ss)" by (simp add: distinct_map)
  ultimately have "s' = s" using sp(3) assms(2) by (auto dest: inj_onD)
  with sp show "\<exists>p \<in> set ps. salesByAssetId ss (String (new_id p)) = Some s" by blast
next
  assume "\<exists>p \<in> set ps. salesByAssetId ss (String (new_id p)) = Some s"
  then show "id_key s \<in> matchedIds (salesByAssetId ss) ps"
    by (auto simp: matchedIds_def)
qed

lemma completedSale_ex:
  "(\<exists>t \<in> set (linkAll ps ss). completedSaleFor s t)
     \<longleftrightarrow> (\<exists>p \<in> set ps. salesByAssetId ss (String (new_id p)) = Some s)"
proof -
  have "(\<exists>t \<in> set (linkAll ps ss). completedSaleFor s t)
          \<longleftrightarrow> filter (completedSaleFor s) (linkAll ps ss) \<noteq> []"
    by (simp add: filter_empty_conv)
  also have "\<dots> \<longleftrightarrow> filter (\<lambda>p. salesByAssetId ss (String (new_id p)) = Some s) ps \<noteq> []"
    using completedSale_linkAll [of s ps ss] by (metis length_0_conv)
  also have "\<dots> \<longleftrightarrow> (\<exists>p \<in> set ps. salesByAssetId ss (String (new_id p)) = Some s)"
    by (simp add: filter_empty_conv)
  finally show ?thesis .
qed

lemma received_linkAll:
  assumes "distinct (map id_key ss)" "s \<in> set ss"
  shows "filter (receivedFor s) (linkAll ps ss)
           = (if \<exists>t \<in> set (linkAll ps ss). completedSaleFor s t then [] else [saleReceived s])"
proof -
  from assms(1) have d: "distinct ss" by (simp add: distinct_map)
  have "filter (receivedFor s) (linkAll ps ss)
          = map saleReceived
              (filter (\<lambda>x. x = s \<and> id_key x \<notin> matchedIds (salesByAssetId ss) ps) ss)"
    by (simp add: linkAll_closed received_links received_emit)
  also have "\<dots> = (if id_key s \<notin> matchedIds (salesByAssetId ss) ps then [saleReceived s] else [])"
    using assms(2) by (simp add: filter_eq_distinct [OF d])
  finally show ?thesis
    by (simp add: matchedIds_iff [OF assms] completedSale_ex)
qed

lemma foldl_countStep:
  "foldl countStep acc txs =
     \<lparr> completed = completed acc
         + length (filter (\<lambda>t. transaction_status t = ''completed'' \<and> role t = ''sale'') txs),
       uncompleted = uncompleted acc
         + length (filter (\<lambda>t. transaction_status t = ''uncompleted'') txs),
       received = received acc
         + length (filter (\<lambda>t. transaction_status t = ''received'') txs) \<rparr>"
proof (induction txs arbitrary: acc)
  case Nil
  show ?case by simp
next
  case (Cons t txs)
  show ?case
    unfolding foldl_Cons Cons.IH
    by (simp add: countStep_def Let_def)
qed

lemma count_completed_links:
  "length (filter (\<lambda>t. transaction_status t = ''completed'' \<and> role t = ''sale'')
             (concat (map (linkOne idx) ps)))
     = length (filter (hit idx) ps)"
  by (induction ps)
     (auto simp: linkOne_def hit_def purchaseCompleted_def saleCompleted_def purchaseUncompleted_def
        split: option.splits)

lemma count_uncompleted_links:
  "length (filter (\<lambda>t. transaction_status t = ''uncompleted'') (concat (map (linkOne idx) ps)))
     = length (filter (\<lambda>p. \<not> hit idx p) ps)"
  by (induction ps)
     (auto simp: linkOne_def hit_def purchaseCompleted_def saleCompleted_def purchaseUncompleted_def
        split: option.splits)

lemma count_received_links:
  "filter (\<lambda>t. transaction_status t = ''received'') (concat (map (linkOne idx) ps)) = []"
  by (induction ps)
     (auto simp: linkOne_def purchaseCompleted_def saleCompleted_def purchaseUncompleted_def
        split: option.splits)

lemma length_links:
  "length (concat (map (linkOne idx) ps))
     = 2 * length (filter (hit idx) ps) + length (filter (\<lambda>p. \<not> hit idx p) ps)"
  by (induction ps) (auto simp: linkOne_def hit_def split: option.splits)

lemma count_emit:
  "filter (\<lambda>t. transaction_status t = ''completed'' \<and> role t = ''sale'') (emitReceived ms ss) = []"
  "filter (\<lambda>t. transaction_status t = ''uncompleted'') (emitReceived ms ss) = []"
  "filter (\<lambda>t. transaction_status t = ''received'') (emitReceived ms ss) = emitReceived ms ss"
  by (simp_all add: emitReceived_def saleReceived_def filter_empty_conv filter_id_conv)

lemma length_emit:
  "length (emitReceived ms ss) = length (filter (\<lambda>s. id_key s \<notin> ms) ss)"
  by (simp add: emitReceived_def)

lemma matchedIds_image:
  "matchedIds idx ps = (\<lambda>k. id_key (the (idx k))) ` set (linkedKeys idx ps)"
  by (force simp: matchedIds_def linkedKeys_def image_iff)

lemma card_matchedIds:
  assumes "distinct (map id_key ss)" "distinct (linkedKeys (salesByAssetId ss) ps)"
  shows "card (matchedIds (salesByAssetId ss) ps) = length (filter (hit (salesByAssetId ss)) ps)"
proof -
  let ?idx = "salesByAssetId ss"
  let ?g = "\<lambda>k. id_key (the (?idx k))"
  from assms(1) have inj: "inj_on id_key (set ss)" by (simp add: distinct_map)
  have "inj_on ?g (set (linkedKeys ?idx ps))"
  proof (rule inj_onI)
    fix k1 k2
    assume k1: "k1 \<in> set (linkedKeys ?idx ps)" and k2: "k2 \<in> set (linkedKeys ?idx ps)"
      and eq: "?g k1 = ?g k2"
    from k1 obtain s1 where s1: "?idx k1 = Some s1" by (auto simp: linkedKeys_def)
    from k2 obtain s2 where s2: "?idx k2 = Some s2" by (auto simp: linkedKeys_def)
    from s1 s2 have "s1 \<in> set ss" "s2 \<in> set ss"
      by (simp_all add: salesByAssetId_SomeD)
    with eq s1 s2 inj have "s1 = s2" by (auto dest: inj_onD)
    with salesByAssetId_SomeD [OF s1] salesByAssetId_SomeD [OF s2] show "k1 = k2" by simp
  qed
  then have "card (matchedIds ?idx ps) = card (set (linkedKeys ?idx ps))"
    by (simp add: matchedIds_image card_image)
  also have "\<dots> = length (linkedKeys ?idx ps)"
    using assms(2) by (simp add: distinct_card)
  also have "\<dots> = length (filter (hit ?idx) ps)"
    unfolding linkedKeys_def hit_def [abs_def] by simp
  finally show ?thesis .
qed

lemma matchedIds_subset:
  "matchedIds (salesByAssetId ss) ps \<subseteq> id_key ` set ss"
  by (auto simp: matchedIds_def dest!: salesByAssetId_SomeD)

lemma count_consumed:
  assumes "distinct (map id_key ss)" "distinct (linkedKeys (salesByAssetId ss) ps)"
  shows "length (filter (\<lambda>s. id_key s \<in> matchedIds (salesByAssetId ss) ps) ss)
           = length (filter (hit (salesByAssetId ss)) ps)"
proof -
  let ?ms = "matchedIds (salesByAssetId ss) ps"
  have "length (filter (\<lambda>s. id_key s \<in> ?ms) ss) = length (filter (\<lambda>i. i \<in> ?ms) (map id_key ss))"
    by (simp add: filter_map comp_def)
  also have "\<dots> = card ({i. i \<in> ?ms} \<inter> set (map id_key ss))"
    by (rule distinct_length_filter [OF assms(1)])
  also have "{i. i \<in> ?ms} \<inter> set (map id_key ss) = ?ms"
    using matchedIds_subset [of ss ps] by auto
  finally show ?thesis by (simp add: card_matchedIds [OF assms])
qed

lemma parse_counts:
  assumes "parseMarketHistory me (Some h) = Inr r" "purchases h = Some es"
  defines "ps \<equiv> accountPurchases me (assets h) es" and "ss \<equiv> accountSales me (assets h) es"
  shows "purchases_count r = length ps" "sales_count r = length ss"
    "totalTransactions r = length ps + length ss"
    "completed_purchases_count r = length (filter (hit (salesByAssetId ss)) ps)"
    "uncompleted_purchases_count r = length (filter (\<lambda>p. \<not> hit (salesByAssetId ss) p) ps)"
    "received_sales_count r
       = length (filter (\<lambda>s. id_key s \<notin> matchedIds (salesByAssetId ss) ps) ss)"
    "length (transactions r)
       = 2 * length (filter (hit (salesByAssetId ss)) ps)
         + length (filter (\<lambda>p. \<not> hit (salesByAssetId ss) p) ps)
         + length (filter (\<lambda>s. id_key s \<notin> matchedIds (salesByAssetId ss) ps) ss)"
proof -
  let ?txs = "linkAll ps ss"
  have r: "r = \<lparr> transactions = ?txs, purchases_count = length ps,
                 completed_purchases_count =
                   completed (foldl countStep \<lparr>completed = 0, uncompleted = 0, received = 0\<rparr> ?txs),
                 uncompleted_purchases_count =
                   uncompleted (foldl countStep \<lparr>completed = 0, uncompleted = 0, received = 0\<rparr> ?txs),
                 sales_count = length ss,
                 received_sales_count =
                   received (foldl countStep \<lparr>completed = 0, uncompleted = 0, received = 0\<rparr> ?txs),
                 totalTransactions = length ps + length ss \<rparr>"
    using assms(1,2) by (simp add: parseMarketHistory_def Let_def ps_def ss_def)
  show "purchases_count r = length ps" "sales_count r = length ss"
    "totalTransactions r = length ps + length ss"
    by (simp_all add: r)
  show "completed_purchases_count r = length (filter (hit (salesByAssetId ss)) ps)"
    by (simp add: r foldl_countStep linkAll_closed count_completed_links count_emit)
  show "uncompleted_purchases_count r = length (filter (\<lambda>p. \<not> hit (salesByAssetId ss) p) ps)"
    by (simp add: r foldl_countStep linkAll_closed count_uncompleted_links count_emit)
  show "received_sales_count r
       = length (filter (\<lambda>s. id_key s \<notin> matchedIds (salesByAssetId ss) ps) ss)"
    by (simp add: r foldl_countStep linkAll_closed count_received_links count_emit length_emit)
  show "length (transactions r)
       = 2 * length (filter (hit (salesByAssetId ss)) ps)
         + length (filter (\<lambda>p. \<not> hit (salesByAssetId ss) p) ps)
         + length (filter (\<lambda>s. id_key s \<notin> matchedIds (salesByAssetId ss) ps) ss)"
    by (simp add: r linkAll_closed length_links length_emit)
qed

lemma mixed_parse:
  "parseMarketHistory ''me'' (Some mixedLedger)
     = Inr (resultOf (parseMarketHistory ''me'' (Some mixedLedger)))"
  by (simp add: mixedLedger_def parseMarketHistory_def resultOf_def Let_def)

lemma mixed_purchases:
  "accountPurchases ''me'' (assets mixedLedger) [entryP1, entryP3, entryS1, entryS2]
     = [parsedP1, parsedP3]"
  by (simp add: example_defs accountPurchases_def isMyPurchase_def)

lemma mixed_sales:
  "accountSales ''me'' (assets mixedLedger) [entryP1, entryP3, entryS1, entryS2]
     = [parsedS1, parsedS2]"
  by (simp add: example_defs accountSales_def isMyPurchase_def)

lemma mixed_keys:
  "linkedKeys (salesByAssetId [parsedS1, parsedS2]) [parsedP1, parsedP3] = [''X2'']"
  by (simp add: example_defs linkedKeys_def parse_defs Let_def)

lemma mixed_transactions:
  "transactions (resultOf (parseMarketHistory ''me'' (Some mixedLedger)))
     = [purchaseCompleted parsedP1 parsedS1, saleCompleted parsedP1 parsedS1,
        purchaseUncompleted parsedP3, saleReceived parsedS2]"
  by (simp add: example_defs parse_defs resultOf_def Let_def)

lemma mixed_distinct: "distinct (map fst [entryP1, entryP3, entryS1, entryS2])"
  by (simp add: example_defs)

section \<open>Rounding to doubles\<close>

lemma bitlen_numeral [simp]:
  "bitlen (numeral n) = bitlen (numeral n div 2) + 1"
  "bitlen 1 = 1"
  by (subst compute_bitlen, simp)+

lemmas dbl_defs = roundDouble_def roundPositive_def binaryExponent_def roundHalfEven_def
  js_times_100_def hundredths_def Let_def

text \<open>
  The double nearest to one third; 23 of 160, which is 14.375 exactly but
  14.374999999999998 in doubles, so that it rounds down; and a negative quotient.
\<close>

lemma roundDouble_examples:
  "roundDouble 1 3 = (6004799503160661, 18014398509481984)"
  "toFixed2_number (js_times_100 (roundDouble 23 160)) = 1437 / 100"
  "toFixed2_number (js_times_100 (roundDouble (- 7) 30)) = - (2333 / 100)"
  by (simp_all add: dbl_defs toFixed2_number_def)

lemma roundHalfEven_error:
  assumes "0 < b"
  shows "\<bar>2 * (roundHalfEven a b * b - a)\<bar> \<le> b"
proof -
  define q where "q = a div b"
  define r where "r = a mod b"
  have a: "a = q * b + r" by (simp add: q_def r_def)
  have r: "0 \<le> r" "r < b" using assms by (simp_all add: r_def)
  have down: "2 * (q * b - a) = - (2 * r)"
    using a by (simp add: algebra_simps)
  have up: "2 * ((q + 1) * b - a) = 2 * b - 2 * r"
    using a by (simp add: algebra_simps)
  have "roundHalfEven a b = q \<and> 2 * r \<le> b \<or> roundHalfEven a b = q + 1 \<and> b \<le> 2 * r"
    by (auto simp: roundHalfEven_def Let_def q_def r_def)
  then show ?thesis
  proof
    assume h: "roundHalfEven a b = q \<and> 2 * r \<le> b"
    then have eq: "roundHalfEven a b = q" by simp
    have "\<bar>2 * (q * b - a)\<bar> \<le> b"
      unfolding down using h r by simp
    then show ?thesis unfolding eq .
  next
    assume h: "roundHalfEven a b = q + 1 \<and> b \<le> 2 * r"
    then have eq: "roundHalfEven a b = q + 1" by simp
    have "\<bar>2 * ((q + 1) * b - a)\<bar> \<le> b"
      unfolding up using h r by simp
    then show ?thesis unfolding eq .
  qed
qed

lemma roundHalfEven_nonneg:
  assumes "0 < b" "0 \<le> a"
  shows "0 \<le> roundHalfEven a b"
proof -
  from assms have "0 \<le> a div b" by (simp add: pos_imp_zdiv_nonneg_iff)
  then show ?thesis by (auto simp: roundHalfEven_def Let_def)
qed

lemma binaryExponent_le: "binaryExponent a b \<le> bitlen a - bitlen b - 52"
  by (simp add: binaryExponent_def Let_def)

lemma bitlen_mono:
  assumes "a \<le> b" "0 < b"
  shows "bitlen a \<le> bitlen b"
  using assms bitlen_bounds [of b] bitlen_nonneg [of b]
  by (simp add: bitlen_le_iff_power)

lemma roundPositive_negative_exponent:
  assumes "0 < a" "0 < b" "binaryExponent a b \<le> - int n"
  shows "0 \<le> fst (roundPositive a b)" "0 < snd (roundPositive a b)"
    "\<bar>dbl_value (roundPositive a b) - of_int a / of_int b\<bar> \<le> 1 / 2 ^ Suc n"
proof -
  define e where "e = nat (- binaryExponent a b)"
  define m where "m = roundHalfEven (a * 2 ^ e) b"
  from assms(3) have neg: "\<not> 0 \<le> binaryExponent a b \<or> binaryExponent a b = 0"
    by linarith
  have rp: "roundPositive a b = (m, 2 ^ e)"
  proof (cases "binaryExponent a b = 0")
    case True
    then show ?thesis by (simp add: roundPositive_def Let_def m_def e_def)
  next
    case False
    with neg show ?thesis by (simp add: roundPositive_def Let_def m_def e_def)
  qed
  from assms(3) have ne: "n \<le> e" by (simp add: e_def)
  show "0 \<le> fst (roundPositive a b)"
    using assms by (simp add: rp m_def roundHalfEven_nonneg)
  show "0 < snd (roundPositive a b)"
    by (simp add: rp)
  have err: "\<bar>2 * (m * b - a * 2 ^ e)\<bar> \<le> b"
    unfolding m_def by (rule roundHalfEven_error [OF assms(2)])
  have bpos: "(0::rat) < of_int b" using assms(2) by simp
  have "dbl_value (roundPositive a b) - of_int a / of_int b
      = (of_int (m * b - a * 2 ^ e)) / (of_int b * 2 ^ e)"
    using assms(2) by (simp add: rp dbl_value_def field_simps)
  then have "\<bar>dbl_value (roundPositive a b) - of_int a / of_int b\<bar>
      = of_int \<bar>m * b - a * 2 ^ e\<bar> / (of_int b * 2 ^ e)"
    using bpos by (simp add: abs_mult)
  also have "\<dots> \<le> (of_int b / 2) / (of_int b * 2 ^ e)"
  proof (rule divide_right_mono)
    from err have "2 * \<bar>m * b - a * 2 ^ e\<bar> \<le> b" by linarith
    then have "(of_int (2 * \<bar>m * b - a * 2 ^ e\<bar>) :: rat) \<le> of_int b"
      by (simp only: of_int_le_iff)
    then show "(of_int \<bar>m * b - a * 2 ^ e\<bar> :: rat) \<le> of_int b / 2" by simp
    show "(0::rat) \<le> of_int b * 2 ^ e" using bpos by simp
  qed
  also have "\<dots> = 1 / 2 ^ Suc e"
    using bpos by simp
  also have "\<dots> \<le> 1 / 2 ^ Suc n"
    using ne by (simp add: frac_le power_increasing)
  finally show "\<bar>dbl_value (roundPositive a b) - of_int a / of_int b\<bar> \<le> 1 / 2 ^ Suc n" .
qed

lemma roundDouble_fraction:
  assumes "0 \<le> a" "a \<le> b" "0 < b"
  shows "0 \<le> fst (roundDouble a b)" "0 < snd (roundDouble a b)"
    "\<bar>dbl_value (roundDouble a b) - of_int a / of_int b\<bar> \<le> 1 / 2 ^ 53"
proof -
  have "0 \<le> fst (roundDouble a b) \<and> 0 < snd (roundDouble a b)
      \<and> \<bar>dbl_value (roundDouble a b) - of_int a / of_int b\<bar> \<le> 1 / 2 ^ 53"
  proof (cases "a = 0")
    case True
    then show ?thesis by (simp add: roundDouble_def dbl_value_def)
  next
    case False
    with assms have pos: "0 < a" by simp
    from bitlen_mono [OF assms(2,3)] binaryExponent_le [of a b]
    have e: "binaryExponent a b \<le> - int 52" by simp
    from roundPositive_negative_exponent [OF pos assms(3) e] pos
    show ?thesis by (simp add: roundDouble_def)
  qed
  then show "0 \<le> fst (roundDouble a b)" "0 < snd (roundDouble a b)"
    "\<bar>dbl_value (roundDouble a b) - of_int a / of_int b\<bar> \<le> 1 / 2 ^ 53"
    by simp_all
qed

lemma js_times_100_small:
  assumes "0 \<le> fst x" "0 < snd x" "fst x \<le> 2 * snd x"
  shows "0 \<le> fst (js_times_100 x)" "0 < snd (js_times_100 x)"
    "\<bar>dbl_value (js_times_100 x) - dbl_value x * 100\<bar> \<le> 1 / 2 ^ 45"
proof -
  have "0 \<le> fst (js_times_100 x) \<and> 0 < snd (js_times_100 x)
      \<and> \<bar>dbl_value (js_times_100 x) - dbl_value x * 100\<bar> \<le> 1 / 2 ^ 45"
  proof (cases "fst x = 0")
    case True
    then show ?thesis by (simp add: js_times_100_def roundDouble_def dbl_value_def)
  next
    case False
    with assms have pos: "0 < fst x * 100" by simp
    have "fst x * 100 < 2 ^ nat (bitlen (snd x) + 8)"
    proof -
      from bitlen_bounds [OF assms(2)] have "snd x < 2 ^ nat (bitlen (snd x))" by simp
      moreover have "(0::int) < 2 ^ nat (bitlen (snd x))" by simp
      ultimately have "fst x * 100 < 256 * 2 ^ nat (bitlen (snd x))"
        using assms(3) by linarith
      also have "\<dots> = 2 ^ nat (bitlen (snd x) + 8)"
        using bitlen_nonneg [of "snd x"] by (simp add: nat_add_distrib power_add)
      finally show ?thesis .
    qed
    then have "bitlen (fst x * 100) \<le> bitlen (snd x) + 8"
      using bitlen_nonneg [of "snd x"] by (simp add: bitlen_le_iff_power)
    with binaryExponent_le [of "fst x * 100" "snd x"]
    have e: "binaryExponent (fst x * 100) (snd x) \<le> - int 44" by simp
    have v: "of_int (fst x * 100) / of_int (snd x) = dbl_value x * 100"
      by (simp add: dbl_value_def)
    from roundPositive_negative_exponent [OF pos assms(2) e, unfolded v] pos
    show ?thesis by (simp add: js_times_100_def roundDouble_def)
  qed
  then show "0 \<le> fst (js_times_100 x)" "0 < snd (js_times_100 x)"
    "\<bar>dbl_value (js_times_100 x) - dbl_value x * 100\<bar> \<le> 1 / 2 ^ 45"
    by simp_all
qed

lemma percent_double:
  assumes "0 \<le> a" "a \<le> b" "0 < b"
  shows "0 \<le> fst (js_times_100 (roundDouble a b))" "0 < snd (js_times_100 (roundDouble a b))"
    "\<bar>dbl_value (js_times_100 (roundDouble a b)) - (of_int a / of_int b) * 100\<bar> \<le> 1 / 2 ^ 44"
proof -
  let ?x = "roundDouble a b"
  note x = roundDouble_fraction [OF assms]
  have q: "(of_int a / of_int b :: rat) \<le> 1"
    using assms by simp
  have "(1 / 2 ^ 53 :: rat) \<le> 1" by simp
  with x(3) have "\<bar>dbl_value ?x - of_int a / of_int b\<bar> \<le> 1" by (rule order_trans)
  with q have "dbl_value ?x \<le> 2" by linarith
  then have le2: "fst ?x \<le> 2 * snd ?x"
    using x(2) by (simp add: dbl_value_def pos_divide_le_eq flip: of_int_le_iff [where 'a = rat])
  note y = js_times_100_small [OF x(1,2) le2]
  show "0 \<le> fst (js_times_100 ?x)" "0 < snd (js_times_100 ?x)" by (rule y)+
  have tri: "\<bar>Y - Q * 100\<bar> \<le> \<bar>Y - X * 100\<bar> + 100 * \<bar>X - Q\<bar>" for Y X Q :: rat
  proof -
    have "Y - Q * 100 = (Y - X * 100) + 100 * (X - Q)" by simp
    then have "\<bar>Y - Q * 100\<bar> \<le> \<bar>Y - X * 100\<bar> + \<bar>100 * (X - Q)\<bar>"
      by (simp only: abs_triangle_ineq)
    moreover have "\<bar>100 * (X - Q)\<bar> = 100 * \<bar>X - Q\<bar>"
      by (subst abs_mult) simp
    ultimately show ?thesis by (simp only:)
  qed
  have "\<bar>dbl_value (js_times_100 ?x) - (of_int a / of_int b) * 100\<bar>
      \<le> \<bar>dbl_value (js_times_100 ?x) - dbl_value ?x * 100\<bar>
        + 100 * \<bar>dbl_value ?x - of_int a / of_int b\<bar>"
    by (rule tri)
  also have "\<dots> \<le> 1 / 2 ^ 45 + 100 * (1 / 2 ^ 53)"
    by (intro add_mono mult_left_mono y(3) x(3)) simp
  also have "\<dots> \<le> 1 / 2 ^ 44" by simp
  finally show "\<bar>dbl_value (js_times_100 ?x) - (of_int a / of_int b) * 100\<bar> \<le> 1 / 2 ^ 44" .
qed

lemma hundredths_floor:
  assumes "0 \<le> fst x" "0 < snd x"
  shows "hundredths x = \<lfloor>dbl_value x * 100 + 1 / 2\<rfloor>"
proof -
  have "dbl_value x * 100 + 1 / 2 = of_int (200 * fst x + snd x) / of_int (2 * snd x)"
    using assms(2) by (simp add: dbl_value_def field_simps)
  then have "\<lfloor>dbl_value x * 100 + 1 / 2\<rfloor> = (200 * fst x + snd x) div (2 * snd x)"
    by (simp only: floor_divide_of_int_eq)
  with assms(1) show ?thesis by (simp add: hundredths_def)
qed

lemma floor_sum_near_100:
  fixes u v :: rat
  assumes "\<bar>u + v - 100\<bar> < 1 / 100"
  shows "\<lfloor>u * 100 + 1 / 2\<rfloor> + \<lfloor>v * 100 + 1 / 2\<rfloor> = 9999
       \<or> \<lfloor>u * 100 + 1 / 2\<rfloor> + \<lfloor>v * 100 + 1 / 2\<rfloor> = 10000
       \<or> \<lfloor>u * 100 + 1 / 2\<rfloor> + \<lfloor>v * 100 + 1 / 2\<rfloor> = 10001"
proof -
  define a where "a = \<lfloor>u * 100 + 1 / 2\<rfloor>"
  define b where "b = \<lfloor>v * 100 + 1 / 2\<rfloor>"
  have a: "of_int a \<le> u * 100 + 1 / 2" "u * 100 + 1 / 2 < of_int a + 1"
    unfolding a_def using floor_correct [of "u * 100 + 1 / 2"] by simp_all
  have b: "of_int b \<le> v * 100 + 1 / 2" "v * 100 + 1 / 2 < of_int b + 1"
    unfolding b_def using floor_correct [of "v * 100 + 1 / 2"] by simp_all
  from assms have s: "9999 < u * 100 + v * 100" "u * 100 + v * 100 < 10001" by linarith+
  from a(1) b(1) s have "(of_int a :: rat) + of_int b < 10002" by linarith
  then have "(of_int (a + b) :: rat) < of_int 10002" by simp
  then have le: "a + b < 10002" by (simp only: of_int_less_iff)
  from a(2) b(2) s have "(9998 :: rat) < of_int a + of_int b" by linarith
  then have "(of_int 9998 :: rat) < of_int (a + b)" by simp
  then have gt: "9998 < a + b" by (simp only: of_int_less_iff)
  from le gt have "a + b = 9999 \<or> a + b = 10000 \<or> a + b = 10001" by linarith
  then show ?thesis by (simp only: a_def b_def)
qed

lemma percent_sum:
  assumes "m + u = t" "0 < t"
  shows "(of_nat m / of_nat t) * 100 + (of_nat u / of_nat t) * (100 :: rat) = 100"
proof -
  have "(of_nat m / of_nat t) * 100 + (of_nat u / of_nat t) * (100 :: rat)
          = (of_nat (m + u) / of_nat t) * 100"
    by (simp add: add_divide_distrib distrib_right)
  also have "\<dots> = 100" using assms by simp
  finally show ?thesis .
qed

lemma hundredths_sum:
  fixes m u t :: nat
  assumes "m + u = t" "0 < t"
  defines "x \<equiv> js_times_100 (roundDouble (int m) (int t))"
      and "y \<equiv> js_times_100 (roundDouble (int u) (int t))"
  shows "0 \<le> fst x" "0 \<le> fst y" "0 \<le> hundredths x" "0 \<le> hundredths y"
    "hundredths x + hundredths y = 9999 \<or> hundredths x + hundredths y = 10000
       \<or> hundredths x + hundredths y = 10001"
proof -
  have mt: "0 \<le> int m" "int m \<le> int t" "0 < int t" and ut: "0 \<le> int u" "int u \<le> int t"
    using assms(1,2) by simp_all
  note px = percent_double [OF mt, folded x_def] and py = percent_double [OF ut mt(3), folded y_def]
  show "0 \<le> fst x" "0 \<le> fst y" by (rule px py)+
  have hx: "hundredths x = \<lfloor>dbl_value x * 100 + 1 / 2\<rfloor>"
    and hy: "hundredths y = \<lfloor>dbl_value y * 100 + 1 / 2\<rfloor>"
    by (rule hundredths_floor [OF px(1,2)], rule hundredths_floor [OF py(1,2)])
  have vx: "0 \<le> dbl_value x" "0 \<le> dbl_value y"
    using px(1,2) py(1,2) by (simp_all add: dbl_value_def)
  show "0 \<le> hundredths x" "0 \<le> hundredths y"
    unfolding hx hy using vx by simp_all
  have s: "(of_int (int m) / of_int (int t)) * 100 + (of_int (int u) / of_int (int t)) * (100 :: rat) = 100"
    using percent_sum [OF assms(1,2)] by simp
  have small: "(1 / 2 ^ 44 :: rat) < 1 / 200" by simp
  from px(3) py(3) small s have "\<bar>dbl_value x + dbl_value y - 100\<bar> < 1 / 100"
    by linarith
  from floor_sum_near_100 [OF this]
  show "hundredths x + hundredths y = 9999 \<or> hundredths x + hundredths y = 10000
       \<or> hundredths x + hundredths y = 10001"
    unfolding hx hy .
qed

lemma decimal_split: "100 * (m div 100) + 10 * ((m div 10) mod 10) + m mod 10 = (m::nat)"
proof -
  have "m mod (10 * 10) = 10 * (m div 10 mod 10) + m mod 10"
    by (rule mod_mult2_eq)
  then have "m mod 100 = 10 * (m div 10 mod 10) + m mod 10" by simp
  moreover have "100 * (m div 100) + m mod 100 = m" by simp
  ultimately show ?thesis by linarith
qed

lemma digit_value_digit_char: "digit_value (digit_char n) = Some (n mod 10)"
  using map_of_zip_nth [of "''0123456789''" "[0..<10]" "n mod 10"]
  by (simp add: digit_value_def digit_char_def)

lemma digit_char_not_dot: "digit_char n \<noteq> CHR ''.''"
proof -
  have "digit_char n \<in> set ''0123456789''"
    unfolding digit_char_def by (rule nth_mem) simp
  then show ?thesis by auto
qed

lemma digits_no_dot: "CHR ''.'' \<notin> set (digits n)"
proof (induction n rule: digits.induct)
  case (1 n)
  show ?case
  proof (cases "n < 10")
    case True
    then show ?thesis
      using digit_char_not_dot [of n] by (auto simp: digits.simps [of n])
  next
    case False
    with 1 [OF False] show ?thesis
      using digit_char_not_dot [of n] by (auto simp: digits.simps [of n])
  qed
qed

lemma digits_nonempty: "digits n \<noteq> []"
  by (subst digits.simps) simp

lemma read_digits_snoc:
  "read_digits acc (cs @ [c]) =
     (case read_digits acc cs of
        None \<Rightarrow> None
      | Some a \<Rightarrow> (case digit_value c of None \<Rightarrow> None | Some v \<Rightarrow> Some (10 * a + v)))"
  by (induction cs arbitrary: acc) (auto split: option.splits)

lemma read_digits_digits: "read_digits 0 (digits n) = Some n"
proof (induction n rule: digits.induct)
  case (1 n)
  show ?case
  proof (cases "n < 10")
    case True
    then show ?thesis
      by (subst digits.simps) (simp add: digit_value_digit_char)
  next
    case False
    with 1 have "read_digits 0 (digits (n div 10)) = Some (n div 10)" by simp
    with False show ?thesis
      by (subst digits.simps) (simp add: read_digits_snoc digit_value_digit_char)
  qed
qed

lemma percentValue_render:
  "percentValue (digits i @ ''.'' @ [digit_char a, digit_char b] @ ''%'')
     = Some (100 * i + 10 * (a mod 10) + b mod 10)"
proof -
  let ?P = "\<lambda>c. c \<noteq> CHR ''.''"
  let ?rest = "''.'' @ [digit_char a, digit_char b] @ ''%''"
  have all: "\<And>c. c \<in> set (digits i) \<Longrightarrow> ?P c" using digits_no_dot [of i] by auto
  have t: "takeWhile ?P (digits i @ ?rest) = digits i"
    using takeWhile_append2 [of "digits i" ?P ?rest] all by simp
  have d: "dropWhile ?P (digits i @ ?rest) = ?rest"
    using dropWhile_append2 [of "digits i" ?P ?rest] all by simp
  show ?thesis
    unfolding percentValue_def Let_def t d
    by (simp add: digits_nonempty read_digits_digits digit_value_digit_char)
qed

lemma percentValue_toFixed2:
  assumes "0 \<le> fst x" "0 \<le> hundredths x"
  shows "percentValue (toFixed2 x @ ''%'') = Some (nat (hundredths x))"
proof -
  let ?m = "nat \<bar>hundredths x\<bar>"
  have m: "?m = nat (hundredths x)" using assms(2) by simp
  have "percentValue (toFixed2 x @ ''%'')
      = percentValue (digits (?m div 100) @ ''.'' @ [digit_char (?m div 10), digit_char ?m] @ ''%'')"
    using assms(1) by (simp add: toFixed2_def Let_def)
  also have "\<dots> = Some (100 * (?m div 100) + 10 * ((?m div 10) mod 10) + ?m mod 10)"
    by (rule percentValue_render)
  also have "100 * (?m div 100) + 10 * ((?m div 10) mod 10) + ?m mod 10 = ?m"
    by (rule decimal_split)
  finally show ?thesis by (simp only: m)
qed

lemma percentage_values:
  assumes "m + u = t" "0 < t"
  shows "\<exists>a b. percentValue (percentage m t) = Some a \<and> percentValue (percentage u t) = Some b
           \<and> (a + b = 9999 \<or> a + b = 10000 \<or> a + b = 10001)"
proof -
  let ?x = "js_times_100 (roundDouble (int m) (int t))"
  let ?y = "js_times_100 (roundDouble (int u) (int t))"
  note h = hundredths_sum [OF assms]
  have a: "percentValue (percentage m t) = Some (nat (hundredths ?x))"
    using assms(2) percentValue_toFixed2 [OF h(1) h(3)] by (simp add: percentage_def)
  have b: "percentValue (percentage u t) = Some (nat (hundredths ?y))"
    using assms(2) percentValue_toFixed2 [OF h(2) h(4)] by (simp add: percentage_def)
  from h(3,4,5) have "nat (hundredths ?x) + nat (hundredths ?y) = 9999
      \<or> nat (hundredths ?x) + nat (hundredths ?y) = 10000
      \<or> nat (hundredths ?x) + nat (hundredths ?y) = 10001"
    by linarith
  with a b show ?thesis by blast
qed

lemma digits_small: "digits 0 = ''0''" "digits 14 = ''14''" "digits 99 = ''99''" "digits 3 = ''3''"
  "digits 96 = ''96''" "digits 50 = ''50''"
  by (simp_all add: digits.simps digit_char_def)

lemma percentage_examples:
  "percentage 23 160 = ''14.37%''" "percentage 3 4000 = ''0.07%''"
  "percentage 3997 4000 = ''99.92%''" "percentage 1 32 = ''3.13%''"
  "percentage 31 32 = ''96.88%''" "percentage 1 2 = ''50.00%''"
  by (simp_all add: percentage_def toFixed2_def dbl_defs digits_small digit_char_def)

lemma percentValue_examples:
  "percentValue ''14.37%'' = Some 1437" "percentValue ''0%'' = None" "percentValue [] = None"
  by (simp_all add: percentValue_def digit_value_def upt_rec)

section \<open>ROI records, statistics and percentages\<close>

lemma salesMap_SomeD:
  "salesMap txs k = Some t \<Longrightarrow> t \<in> set txs \<and> role t = ''sale'' \<and> purchase_id t = k"
  unfolding salesMap_def Map_new_def by (auto dest!: map_of_SomeD)

lemma Map_new_map:
  "Map_new (map (\<lambda>t. (f t, g t)) xs) k = map_option g (Map_new (map (\<lambda>t. (f t, t)) xs) k)"
proof -
  have "map_of (map (\<lambda>t. (f t, g t)) ys) k = map_option g (map_of (map (\<lambda>t. (f t, t)) ys) k)" for ys
    by (induction ys) simp_all
  from this [of "rev xs"] show ?thesis
    by (simp add: Map_new_def rev_map)
qed

lemma saleEntries_wellformed:
  "saleEntries (map JsTx txs)
     = Inr (map (\<lambda>t. (purchase_id t, JsTx t)) (filter (\<lambda>t. role t = ''sale'') txs))"
  by (induction txs) (simp_all add: elemHead_def headOf_def)

lemma elemStep_wellformed:
  assumes "\<And>k. sm k = map_option JsTx (salesMap txs k)"
  shows "elemStep sm (JsTx p) = Inr (roiStep (salesMap txs) p)"
  by (simp add: elemStep_def roiStep_def elemHead_def headOf_def assms split: option.splits)

lemma elemLoop_wellformed:
  assumes "\<And>p. elemStep sm (JsTx p) = Inr (f p)"
  shows "elemLoop sm (map JsTx txs) rs = Inr (rs @ List.map_filter f txs)"
  by (induction txs arbitrary: rs) (simp_all add: assms map_filter_simps split: option.splits)

lemma calculateROI_wellformed:
  "calculateROI (JsArray (map JsTx txs)) = Inr (List.map_filter (roiStep (salesMap txs)) txs)"
proof -
  let ?sm = "Map_new (map (\<lambda>t. (purchase_id t, JsTx t)) (filter (\<lambda>t. role t = ''sale'') txs))"
  have sm: "?sm k = map_option JsTx (salesMap txs k)" for k
    unfolding salesMap_def by (rule Map_new_map)
  have "elemLoop ?sm (map JsTx txs) [] = Inr ([] @ List.map_filter (roiStep (salesMap txs)) txs)"
    by (rule elemLoop_wellformed) (rule elemStep_wellformed [OF sm])
  then show ?thesis
    by (simp add: calculateROI_def saleEntries_wellformed)
qed

lemma elemHead_None: "elemHead x = None \<longleftrightarrow> x = JsNullElem"
  by (cases x) (simp_all add: elemHead_def)

lemma saleEntries_null: "JsNullElem \<in> set xs \<Longrightarrow> saleEntries xs = Inl TypeError"
  by (induction xs) (auto simp: elemHead_def split: option.splits sum.splits js_elem.splits)

lemma saleEntries_Inl: "saleEntries xs = Inl e \<Longrightarrow> e = TypeError \<and> JsNullElem \<in> set xs"
  by (induction xs) (auto simp: elemHead_None split: option.splits sum.splits if_splits)

lemma saleEntries_Inr: "saleEntries xs = Inr es \<Longrightarrow> (k, y) \<in> set es \<Longrightarrow> y \<in> set xs"
proof (induction xs arbitrary: es)
  case Nil
  then show ?case by simp
next
  case (Cons x xs)
  from Cons.prems(1) obtain h es' where h: "elemHead x = Some h" "saleEntries xs = Inr es'"
    and es: "es = (if head_role h = ''sale'' then (head_purchase_id h, x) # es' else es')"
    by (auto split: option.splits sum.splits)
  from Cons.prems(2) es have "y = x \<or> (k, y) \<in> set es'"
    by (auto split: if_splits)
  with Cons.IH [OF h(2)] show ?case by auto
qed

lemma Map_new_ran: "Map_new es k = Some y \<Longrightarrow> (k, y) \<in> set es"
  unfolding Map_new_def by (auto dest!: map_of_SomeD)

lemma elemStep_Inl:
  assumes "elemStep sm x = Inl e"
  shows "e = TypeError \<and> ((\<forall>t. x \<noteq> JsTx t) \<or> (\<exists>k y. sm k = Some y \<and> (\<forall>t. y \<noteq> JsTx t)))"
  using assms
  by (cases x) (auto simp: elemStep_def elemHead_def split: option.splits if_splits js_elem.splits)

lemma elemLoop_Inl:
  assumes "elemLoop sm xs rs = Inl e"
  shows "e = TypeError
       \<and> ((\<exists>x \<in> set xs. \<forall>t. x \<noteq> JsTx t) \<or> (\<exists>k y. sm k = Some y \<and> (\<forall>t. y \<noteq> JsTx t)))"
  using assms
proof (induction xs arbitrary: rs)
  case Nil
  then show ?case by simp
next
  case (Cons x xs)
  show ?case
  proof (cases "elemStep sm x")
    case (Inl e')
    with Cons.prems have "e' = e" by simp
    with elemStep_Inl [OF Inl] show ?thesis by auto
  next
    case (Inr r)
    with Cons.prems obtain rs' where "elemLoop sm xs rs' = Inl e"
      by (cases r) auto
    from Cons.IH [OF this] show ?thesis by auto
  qed
qed

lemma elemLoop_records:
  assumes "elemLoop sm xs rs0 = Inr rs"
  shows "\<forall>r \<in> set rs. r \<in> set rs0 \<or> (\<exists>p s. r = roiRecord p s)"
  using assms
proof (induction xs arbitrary: rs0)
  case Nil
  then show ?case by simp
next
  case (Cons x xs)
  show ?case
  proof (cases "elemStep sm x")
    case (Inl e)
    with Cons.prems show ?thesis by simp
  next
    case (Inr o1)
    show ?thesis
    proof (cases o1)
      case None
      with Inr Cons.prems have "elemLoop sm xs rs0 = Inr rs" by simp
      from Cons.IH [OF this] show ?thesis .
    next
      case (Some r1)
      with Inr Cons.prems have l: "elemLoop sm xs (rs0 @ [r1]) = Inr rs" by simp
      from Inr Some have "\<exists>p s. r1 = roiRecord p s"
        by (auto simp: elemStep_def split: option.splits if_splits js_elem.splits)
      with Cons.IH [OF l] show ?thesis by auto
    qed
  qed
qed

lemma calculateROI_array_error:
  assumes "calculateROI (JsArray xs) = Inl e"
  shows "e = TypeError \<and> (\<exists>x \<in> set xs. \<forall>t. x \<noteq> JsTx t)"
proof (cases "saleEntries xs")
  case (Inl e')
  with assms have "e' = e" by (simp add: calculateROI_def)
  with saleEntries_Inl [OF Inl] show ?thesis by auto
next
  case (Inr es)
  with assms have l: "elemLoop (Map_new es) xs [] = Inl e" by (simp add: calculateROI_def)
  from elemLoop_Inl [OF l] Map_new_ran [of es] saleEntries_Inr [OF Inr] show ?thesis
    by blast
qed

lemma roiStep_SomeD:
  assumes "roiStep (salesMap txs) p = Some r"
  shows "role p = ''purchase'' \<and> transaction_status p = ''completed''
       \<and> (\<exists>saleTx \<in> set txs. role saleTx = ''sale''
             \<and> linked_sale_id p = Some (purchase_id saleTx)
             \<and> r = roiRecord p saleTx)"
proof -
  from assms have rp: "role p = ''purchase''" "transaction_status p = ''completed''"
    and tr: "truthy (linked_sale_id p)"
    by (auto simp: roiStep_def split: if_splits)
  from assms rp tr obtain saleTx where
    s: "salesMap txs (String (linked_sale_id p)) = Some saleTx" "r = roiRecord p saleTx"
    by (auto simp: roiStep_def split: option.splits)
  from tr have "linked_sale_id p = Some (String (linked_sale_id p))"
    by (auto simp: truthy_def String_def split: option.splits)
  with salesMap_SomeD [OF s(1)] s(2) rp show ?thesis by auto
qed

lemma roiRecord_prices:
  "buy_price (roiRecord p s) = paid_total (purchase p)"
  "sell_price (roiRecord p s) = num_or_0 (received_amount (raw (purchase s)))"
  "profit (roiRecord p s) = sell_price (roiRecord p s) - buy_price (roiRecord p s)"
  "purchase_raw (roiRecord p s) = purchase p"
  "sale_raw (roiRecord p s) = purchase s"
  by (simp_all add: roiRecord_def Let_def)

lemma roiRecord_zero:
  "paid_total (purchase p) \<le> 0 \<Longrightarrow> roi_percent (roiRecord p s) = 0"
  by (simp add: roiRecord_def Let_def toFixed2_number_def hundredths_def)

lemma set_map_filter: "set (List.map_filter f xs) = {y. \<exists>x \<in> set xs. f x = Some y}"
  by (induction xs) (auto simp: map_filter_simps split: option.splits)

lemma length_map_filter: "length (List.map_filter f xs) = length (filter (\<lambda>x. f x \<noteq> None) xs)"
  by (simp add: map_filter_def)

lemma scenarioA_transactions:
  "transactions (resultOf (parseMarketHistory ''me'' (Some scenarioA)))
     = [purchaseCompleted parsedP1 parsedS1, saleCompleted parsedP1 parsedS1]"
  by (simp add: example_defs parse_defs resultOf_def Let_def)

lemma scenarioA_roi:
  "roiSummary (calculateROI (JsArray (map JsTx
       (transactions (resultOf (parseMarketHistory ''me'' (Some scenarioA)))))))
     = [(''p1'', 10, 15, 5, 50)]"
  unfolding scenarioA_transactions calculateROI_wellformed
  by (simp add: roiSummary_def salesMap_def Map_new_def roiStep_def roiRecord_def
        map_filter_simps purchaseCompleted_def saleCompleted_def truthy_def String_def num_or_0_def
        example_defs parseEntry_def isMyPurchase_def toFixed2_number_def dbl_defs)

text \<open>
  Bought at 160 and sold at 183: the exact ROI is 14.375 percent, the doubles of the
  source give 14.374999999999998, and \<^verbatim>\<open>toFixed(2)\<close> prints 14.37.
\<close>

lemma roi_percent_example:
  "paid_total (purchase p) = 160 \<Longrightarrow> received_amount (raw (purchase s)) = Some 183
     \<Longrightarrow> roi_percent (roiRecord p s) = 1437 / 100"
  by (simp add: roiRecord_def num_or_0_def toFixed2_number_def dbl_defs)

lemma overallROI_example: "overallROI 160 (Num 23) = Num (1437 / 100)"
  by (simp add: overallROI_def toFixed2_number_def dbl_defs)

lemma roiStep_NoneI:
  "transaction_status t = ''uncompleted'' \<or> transaction_status t = ''received''
     \<Longrightarrow> roiStep sm t = None"
  by (auto simp: roiStep_def)

lemma roiStep_count_le:
  "length (filter (\<lambda>t. roiStep sm t \<noteq> None) xs)
     \<le> length (filter (\<lambda>t. role t = ''purchase'' \<and> transaction_status t = ''completed'') xs)"
proof (induction xs)
  case Nil
  show ?case by simp
next
  case (Cons t ts)
  have "roiStep sm t \<noteq> None \<Longrightarrow> role t = ''purchase'' \<and> transaction_status t = ''completed''"
    by (auto simp: roiStep_def split: if_splits)
  with Cons show ?case by (auto simp: le_SucI)
qed

lemma js_add_NaN [simp]: "js_add NaN x = NaN" "js_add x NaN = NaN"
  by (simp_all add: js_add_def split: jsnum.splits)

lemma js_sub_NaN [simp]: "js_sub NaN x = NaN"
  by (simp add: js_sub_def)

lemma item_totalReceived_purchaseStat [simp]:
  "item_totalReceived (purchaseStat t i) = item_totalReceived i"
  by (simp add: purchaseStat_def Let_def)

lemma item_totalReceived_saleStat [simp]:
  "item_totalReceived (saleStat t i)
     = js_add (item_totalReceived i) (to_number (received_amount (raw (purchase t))))"
  by (simp add: saleStat_def Let_def)

lemma statStep_keeps_NaN:
  assumes "statStep st t = Inr st'"
  shows "run_totalReceived st = NaN \<Longrightarrow> run_totalReceived st' = NaN"
    and "itemNaN st name \<Longrightarrow> itemNaN st' name"
  using assms
  by (auto simp: statStep_def Let_def itemNaN_def split: if_splits)

lemma statStep_sale_without_amount:
  assumes "statStep st t = Inr st'" "role t = ''sale''" "received_amount (raw (purchase t)) = None"
  shows "run_totalReceived st' = NaN \<and> itemNaN st' (market_name (purchase t))"
  using assms
  by (auto simp: statStep_def Let_def itemNaN_def to_number_def split: if_splits)

lemma statLoop_keeps_NaN:
  assumes "statLoop st ts = Inr st'"
  shows "(run_totalReceived st = NaN \<longrightarrow> run_totalReceived st' = NaN)
       \<and> (itemNaN st name \<longrightarrow> itemNaN st' name)"
  using assms
proof (induction ts arbitrary: st)
  case Nil
  then show ?case by simp
next
  case (Cons t ts)
  from Cons.prems obtain st1 where s1: "statStep st t = Inr st1" "statLoop st1 ts = Inr st'"
    by (auto split: sum.splits)
  from statStep_keeps_NaN [OF s1(1)] Cons.IH [OF s1(2)] show ?case by blast
qed

lemma statLoop_append:
  "statLoop st (xs @ ys) = (case statLoop st xs of Inl e \<Rightarrow> Inl e | Inr st1 \<Rightarrow> statLoop st1 ys)"
  by (induction xs arbitrary: st) (auto split: sum.splits)

lemma statLoop_sale_without_amount:
  assumes "statLoop st txs = Inr st'" "t \<in> set txs" "role t = ''sale''"
    "received_amount (raw (purchase t)) = None"
  shows "run_totalReceived st' = NaN \<and> itemNaN st' (market_name (purchase t))"
proof -
  from assms(2) obtain xs ys where txs: "txs = xs @ t # ys"
    by (auto dest: split_list)
  from assms(1) obtain st1 st2 where
    "statLoop st xs = Inr st1" "statStep st1 t = Inr st2" "statLoop st2 ys = Inr st'"
    unfolding txs statLoop_append by (auto split: sum.splits)
  with statStep_sale_without_amount [OF _ assms(3,4)] statLoop_keeps_NaN
  show ?thesis by blast
qed

lemma statStep_total:
  "validDate (tx_time_sold t) \<Longrightarrow> \<exists>st'. statStep st t = Inr st'"
  by (simp add: statStep_def Let_def)

lemma statLoop_total:
  "\<forall>t \<in> set ts. validDate (tx_time_sold t) \<Longrightarrow> \<exists>st'. statLoop st ts = Inr st'"
proof (induction ts arbitrary: st)
  case Nil
  show ?case by simp
next
  case (Cons t ts)
  from Cons.prems statStep_total [of t st] obtain st1 where "statStep st t = Inr st1"
    by auto
  with Cons show ?case by simp
qed

lemma matchLoop_lengths:
  "length (fst (matchLoop im ts (ma, un))) + length (snd (matchLoop im ts (ma, un)))
     = length ma + length un + length ts"
  by (induction ts arbitrary: ma un) (auto split: option.splits)

lemma linkAll_purchase_mem:
  assumes "t \<in> set (linkAll ps ss)"
  shows "purchase t \<in> set ps \<union> set ss"
proof -
  from assms consider (l) "t \<in> set (concat (map (linkOne (salesByAssetId ss)) ps))"
    | (r) "t \<in> set (emitReceived (matchedIds (salesByAssetId ss) ps) ss)"
    unfolding linkAll_closed by auto
  then show ?thesis
  proof cases
    case l
    then obtain p where p: "p \<in> set ps" "t \<in> set (linkOne (salesByAssetId ss) p)"
      by auto
    show ?thesis
    proof (cases "salesByAssetId ss (String (new_id p))")
      case None
      with p show ?thesis by (auto simp: linkOne_def purchaseUncompleted_def)
    next
      case (Some s)
      then have "s \<in> set ss" by (simp add: salesByAssetId_SomeD)
      with p Some show ?thesis
        by (auto simp: linkOne_def purchaseCompleted_def saleCompleted_def)
    qed
  next
    case r
    then show ?thesis by (auto simp: emitReceived_def saleReceived_def)
  qed
qed

lemma parseEntry_no_catalog:
  "market_name (parseEntry me None kv)
     = str_or (raw_market_name (raw (parseEntry me None kv))) ''Unknown Item''"
  by (simp add: parseEntry_def Let_def itemInfo_def str_or_def split: option.splits)

lemmas stat_defs = calculateTransactionStatistics_def initialStats_def statStep_def purchaseStat_def
  saleStat_def newItemStat_def validDate_def overallROI_def js_add_def js_sub_def to_number_def

lemma free_transactions:
  "transactions (resultOf (parseMarketHistory ''me'' (Some freeLedger)))
     = [purchaseCompleted parsedP0 parsedS0, saleCompleted parsedP0 parsedS0]"
  by (simp add: example_defs parse_defs resultOf_def Let_def)

lemma noAmount_transactions:
  "transactions (resultOf (parseMarketHistory ''me'' (Some noAmountLedger)))
     = [purchaseCompleted parsedP1 parsedS1n, saleCompleted parsedP1 parsedS1n]"
  by (simp add: example_defs parse_defs resultOf_def Let_def)

section \<open>Claims about the ledger parser\<close>

text \<open>
  Claim C9. For every purchase linked to a sale the parser emits two separate entries of
  the transaction list, next to each other: one with role \<open>purchase\<close> and one with role
  \<open>sale\<close>, both with status \<open>completed\<close>; the first names the sale in
  \<open>linked_sale_id\<close>, the second names the purchase in \<open>linked_purchase_id\<close>.
\<close>

theorem linked_purchase_emits_two_entries:
  assumes "parseMarketHistory me (Some h) = Inr r"
      and "purchases h = Some es"
      and "p \<in> set (accountPurchases me (assets h) es)"
      and "salesByAssetId (accountSales me (assets h) es) (String (new_id p)) = Some s"
  shows "\<exists>pre a b post. transactions r = pre @ [a, b] @ post
           \<and> role a = ''purchase'' \<and> transaction_status a = ''completed''
           \<and> purchase a = p \<and> purchase_id a = id_key p \<and> linked_sale_id a = Some (id_key s)
           \<and> role b = ''sale'' \<and> transaction_status b = ''completed''
           \<and> purchase b = s \<and> purchase_id b = id_key s \<and> linked_purchase_id b = Some (id_key p)"
proof -
  from linkAll_pair [OF assms(3,4)] obtain pre post where
    "transactions r = pre @ [purchaseCompleted p s, saleCompleted p s] @ post"
    unfolding parse_transactions [OF assms(1,2)] by blast
  then show ?thesis
    by (intro exI [of _ pre] exI [of _ "purchaseCompleted p s"] exI [of _ "saleCompleted p s"]
          exI [of _ post]) (simp add: purchaseCompleted_def saleCompleted_def)
qed

theorem linked_purchase_emits_two_entries_witness:
  "\<exists>pre a b post.
     transactions (resultOf (parseMarketHistory ''me'' (Some scenarioA))) = pre @ [a, b] @ post
     \<and> role a = ''purchase'' \<and> transaction_status a = ''completed''
     \<and> purchase a = parsedP1 \<and> purchase_id a = ''p1'' \<and> linked_sale_id a = Some ''s1''
     \<and> role b = ''sale'' \<and> transaction_status b = ''completed''
     \<and> purchase b = parsedS1 \<and> purchase_id b = ''s1'' \<and> linked_purchase_id b = Some ''p1''"
proof -
  have h2: "purchases scenarioA = Some [entryP1, entryS1]"
    by (simp add: scenarioA_def)
  have h3: "parsedP1 \<in> set (accountPurchases ''me'' (assets scenarioA) [entryP1, entryS1])"
    by (simp add: example_defs accountPurchases_def isMyPurchase_def)
  have h4: "salesByAssetId (accountSales ''me'' (assets scenarioA) [entryP1, entryS1])
              (String (new_id parsedP1)) = Some parsedS1"
    by (simp add: example_defs parse_defs Let_def)
  have ids: "id_key parsedP1 = ''p1''" "id_key parsedS1 = ''s1''"
    by (simp_all add: example_defs)
  show ?thesis
    using linked_purchase_emits_two_entries [OF scenarioA_parse h2 h3 h4] unfolding ids .
qed

text \<open>
  Claim C1, as stated, fails: the loop never asks whether a sale is already claimed. In
  the ledger with purchases \<open>p1\<close> and \<open>p2\<close> that both carry the post-disposal id
  \<open>X2\<close> of the sale \<open>s1\<close>, the second purchase is \<open>completed\<close> too, and the sale
  is emitted twice.
\<close>

theorem shared_id_second_purchase_counterexample:
  "statusesOf (parseMarketHistory ''me'' (Some sharedIdLedger)) =
     [(''purchase:p1'', ''completed''), (''sale:s1'', ''completed''),
      (''purchase:p2'', ''completed''), (''sale:s1'', ''completed'')]"
  by (simp add: statusesOf_def example_defs parse_defs Let_def)

text \<open>
  Claim C1, amended. When two purchases carry the same post-disposal id, and that id is
  the asset id, not empty, of some sale, the purchases are emitted in input order and
  both of them, the first and the later one alike, are linked as \<open>completed\<close> to the
  sale that the index holds for that id, which is the last sale in input order with that
  asset id; no purchase with that id is emitted as \<open>uncompleted\<close>, and the output
  holds one completed sale record referring to that sale for each such purchase, so at
  least two.
\<close>

theorem shared_id_all_completed:
  assumes "parseMarketHistory me (Some h) = Inr r"
      and "purchases h = Some es"
      and "accountPurchases me (assets h) es = xs @ p1 # ys @ p2 # zs"
      and "String (new_id p1) = k" and "String (new_id p2) = k"
      and "s0 \<in> set (accountSales me (assets h) es)"
      and "truthy (assetid s0)" and "String (assetid s0) = k"
  shows "map purchase (filter (\<lambda>t. role t = ''purchase'') (transactions r))
           = accountPurchases me (assets h) es
       \<and> (\<exists>s. salesByAssetId (accountSales me (assets h) es) k = Some s
            \<and> s \<in> set (accountSales me (assets h) es) \<and> String (assetid s) = k
            \<and> s = last (filter (\<lambda>x. truthy (assetid x) \<and> String (assetid x) = k)
                          (accountSales me (assets h) es))
            \<and> (\<exists>a b c. transactions r =
                  a @ [purchaseCompleted p1 s, saleCompleted p1 s] @ b
                    @ [purchaseCompleted p2 s, saleCompleted p2 s] @ c)
            \<and> (\<forall>p \<in> set (accountPurchases me (assets h) es).
                  String (new_id p) = k \<longrightarrow> purchaseUncompleted p \<notin> set (transactions r))
            \<and> length (filter (completedSaleFor s) (transactions r))
                 = length (filter (\<lambda>p. String (new_id p) = k) (accountPurchases me (assets h) es))
            \<and> 2 \<le> length (filter (completedSaleFor s) (transactions r)))"
proof -
  let ?ps = "accountPurchases me (assets h) es" and ?ss = "accountSales me (assets h) es"
  let ?idx = "salesByAssetId ?ss"
  have tr: "transactions r = linkAll ?ps ?ss"
    by (rule parse_transactions [OF assms(1,2)])
  from salesByAssetId_hit [OF assms(6,7)] assms(8) obtain s where s: "?idx k = Some s"
    by auto
  have sD: "s \<in> set ?ss" "String (assetid s) = k"
    using salesByAssetId_SomeD [OF s] by simp_all
  have sL: "s = last (filter (\<lambda>x. truthy (assetid x) \<and> String (assetid x) = k) ?ss)"
    by (rule salesByAssetId_last [OF s])
  have order: "map purchase (filter (\<lambda>t. role t = ''purchase'') (transactions r)) = ?ps"
    by (simp add: tr purchase_legs_linkAll)
  have h1: "linkOne ?idx p1 = [purchaseCompleted p1 s, saleCompleted p1 s]"
    and h2: "linkOne ?idx p2 = [purchaseCompleted p2 s, saleCompleted p2 s]"
    using s assms(4,5) by (simp_all add: linkOne_hit)
  have "transactions r = concat (map (linkOne ?idx) xs)
          @ [purchaseCompleted p1 s, saleCompleted p1 s] @ concat (map (linkOne ?idx) ys)
          @ [purchaseCompleted p2 s, saleCompleted p2 s]
          @ (concat (map (linkOne ?idx) zs) @ emitReceived (matchedIds ?idx ?ps) ?ss)"
    unfolding tr linkAll_closed assms(3) by (simp add: h1 h2)
  then have both: "\<exists>a b c. transactions r =
      a @ [purchaseCompleted p1 s, saleCompleted p1 s] @ b
        @ [purchaseCompleted p2 s, saleCompleted p2 s] @ c"
    by blast
  have key: "?idx (String (new_id p)) = Some s \<longleftrightarrow> String (new_id p) = k" for p :: parsed
    using s salesByAssetId_SomeD [of ?ss "String (new_id p)" s] sD(2) by auto
  have cnt: "length (filter (completedSaleFor s) (transactions r))
      = length (filter (\<lambda>p. String (new_id p) = k) ?ps)"
    by (simp add: tr completedSale_linkAll key)
  have two: "2 \<le> length (filter (\<lambda>p. String (new_id p) = k) ?ps)"
    unfolding assms(3) using assms(4,5) by simp
  have none: "purchaseUncompleted p \<notin> set (transactions r)"
    if "p \<in> set ?ps" "String (new_id p) = k" for p
  proof
    assume "purchaseUncompleted p \<in> set (transactions r)"
    then have "purchaseUncompleted p \<in> set (concat (map (linkOne ?idx) ?ps))"
      unfolding tr linkAll_closed
      by (auto simp: emitReceived_def saleReceived_def purchaseUncompleted_def)
    then obtain q where q: "q \<in> set ?ps" "purchaseUncompleted p \<in> set (linkOne ?idx q)"
      by auto
    then have "q = p"
      by (cases "?idx (String (new_id q))")
         (auto simp: linkOne_def purchaseUncompleted_def purchaseCompleted_def saleCompleted_def)
    with q(2) that(2) s show False
      by (auto simp: linkOne_def purchaseUncompleted_def purchaseCompleted_def saleCompleted_def)
  qed
  from cnt two have two': "2 \<le> length (filter (completedSaleFor s) (transactions r))"
    by simp
  from none have noneA: "\<forall>p \<in> set ?ps. String (new_id p) = k
      \<longrightarrow> purchaseUncompleted p \<notin> set (transactions r)"
    by blast
  from order s sD sL both noneA cnt two' show ?thesis
    by blast
qed

theorem shared_id_all_completed_witness:
  "salesByAssetId (accountSales ''me'' (assets twoSalesLedger) [entryP1, entryP2, entryS1, entryS9])
       ''X2'' = Some parsedS9
   \<and> (\<exists>a b c. transactions (resultOf (parseMarketHistory ''me'' (Some twoSalesLedger))) =
         a @ [purchaseCompleted parsedP1 parsedS9, saleCompleted parsedP1 parsedS9] @ b
           @ [purchaseCompleted parsedP2 parsedS9, saleCompleted parsedP2 parsedS9] @ c)"
proof -
  let ?es = "[entryP1, entryP2, entryS1, entryS9]"
  have h2: "purchases twoSalesLedger = Some ?es"
    by (simp add: twoSalesLedger_def)
  have h3: "accountPurchases ''me'' (assets twoSalesLedger) ?es = [] @ parsedP1 # [] @ parsedP2 # []"
    by (simp add: example_defs accountPurchases_def isMyPurchase_def)
  have h4: "String (new_id parsedP1) = ''X2''" and h5: "String (new_id parsedP2) = ''X2''"
    by (simp_all add: example_defs parseEntry_def String_def Let_def)
  have h6: "parsedS1 \<in> set (accountSales ''me'' (assets twoSalesLedger) ?es)"
    by (simp add: example_defs accountSales_def isMyPurchase_def)
  have h7: "truthy (assetid parsedS1)" and h8: "String (assetid parsedS1) = ''X2''"
    by (simp_all add: example_defs parseEntry_def String_def truthy_def Let_def)
  have idx: "salesByAssetId (accountSales ''me'' (assets twoSalesLedger) ?es) ''X2'' = Some parsedS9"
    by (simp add: example_defs parse_defs Let_def)
  from shared_id_all_completed [OF twoSales_parse h2 h3 h4 h5 h6 h7 h8] idx show ?thesis
    by auto
qed

text \<open>
  Claim C3. The keys of the purchases object are distinct, as the keys of a JavaScript
  object are. Then a sale that the output holds as the \<open>completed\<close> counterpart of a
  purchase has no \<open>received\<close> record, and every other sale of the account has exactly
  one, its own.
\<close>

theorem consumed_sale_never_received:
  assumes "parseMarketHistory me (Some h) = Inr r"
      and "purchases h = Some es"
      and "distinct (map fst es)"
      and "s \<in> set (accountSales me (assets h) es)"
  shows "((\<exists>t \<in> set (transactions r). completedSaleFor s t)
            \<longrightarrow> filter (receivedFor s) (transactions r) = [])
       \<and> (\<not> (\<exists>t \<in> set (transactions r). completedSaleFor s t)
            \<longrightarrow> filter (receivedFor s) (transactions r) = [saleReceived s])"
  unfolding parse_transactions [OF assms(1,2)]
  using received_linkAll [OF distinct_accountSales [OF assms(3)] assms(4)]
  by simp

theorem consumed_sale_never_received_witness:
  "filter (receivedFor parsedS1)
     (transactions (resultOf (parseMarketHistory ''me'' (Some mixedLedger)))) = []
   \<and> filter (receivedFor parsedS2)
     (transactions (resultOf (parseMarketHistory ''me'' (Some mixedLedger))))
       = [saleReceived parsedS2]"
proof -
  let ?r = "resultOf (parseMarketHistory ''me'' (Some mixedLedger))"
  have h2: "purchases mixedLedger = Some [entryP1, entryP3, entryS1, entryS2]"
    by (simp add: mixedLedger_def)
  have s1: "parsedS1 \<in> set (accountSales ''me'' (assets mixedLedger) [entryP1, entryP3, entryS1, entryS2])"
    and s2: "parsedS2 \<in> set (accountSales ''me'' (assets mixedLedger) [entryP1, entryP3, entryS1, entryS2])"
    unfolding mixed_sales by simp_all
  have ne: "parsedS1 \<noteq> parsedS2"
    by (simp add: example_defs parseEntry_def Let_def)
  have c1: "\<exists>t \<in> set (transactions ?r). completedSaleFor parsedS1 t"
    unfolding mixed_transactions by (simp add: completedSaleFor_def saleCompleted_def)
  have c2: "\<not> (\<exists>t \<in> set (transactions ?r). completedSaleFor parsedS2 t)"
    unfolding mixed_transactions using ne
    by (simp add: completedSaleFor_def saleCompleted_def purchaseCompleted_def
          purchaseUncompleted_def saleReceived_def)
  from consumed_sale_never_received [OF mixed_parse h2 mixed_distinct s1]
       consumed_sale_never_received [OF mixed_parse h2 mixed_distinct s2] c1 c2
  show ?thesis by blast
qed

text \<open>
  Claim C2, as stated, fails on the ledger in which two purchases share the post-disposal
  id of one sale: the transaction list has 4 entries for 2 purchases and 1 sale, and the
  completed count 2 plus the received count 0 is not the sale count 1.
\<close>

theorem conservation_of_counts_counterexample:
  "countsOf (parseMarketHistory ''me'' (Some sharedIdLedger)) = [4, 2, 1, 2, 0, 0]"
  by (simp add: countsOf_def example_defs parse_defs Let_def)

text \<open>
  Claim C2, amended. The completed and uncompleted counts always add up to the purchase
  count, \<open>totalTransactions\<close> is always the purchase count plus the sale count, and
  the transaction list always has one entry per purchase, per completed link and per
  received sale. When no two purchases that hit the sales index share a post-disposal
  id, the length of the list is the purchase count plus the sale count, and the
  completed and received counts add up to the sale count.
\<close>

theorem conservation_of_counts:
  assumes "parseMarketHistory me (Some h) = Inr r"
      and "purchases h = Some es"
      and "distinct (map fst es)"
  shows "completed_purchases_count r + uncompleted_purchases_count r = purchases_count r
       \<and> totalTransactions r = purchases_count r + sales_count r
       \<and> length (transactions r)
           = purchases_count r + completed_purchases_count r + received_sales_count r
       \<and> (distinct (linkedKeys (salesByAssetId (accountSales me (assets h) es))
                      (accountPurchases me (assets h) es))
            \<longrightarrow> length (transactions r) = purchases_count r + sales_count r
              \<and> completed_purchases_count r + received_sales_count r = sales_count r)"
proof -
  let ?ps = "accountPurchases me (assets h) es" and ?ss = "accountSales me (assets h) es"
  let ?idx = "salesByAssetId ?ss"
  note c = parse_counts [OF assms(1,2)]
  have split_ps: "length (filter (hit ?idx) ?ps) + length (filter (\<lambda>p. \<not> hit ?idx p) ?ps)
      = length ?ps"
    by (rule sum_length_filter_compl)
  have split_ss: "length (filter (\<lambda>s. id_key s \<in> matchedIds ?idx ?ps) ?ss)
      + length (filter (\<lambda>s. id_key s \<notin> matchedIds ?idx ?ps) ?ss) = length ?ss"
    by (rule sum_length_filter_compl)
  have a: "completed_purchases_count r + uncompleted_purchases_count r = purchases_count r"
    using split_ps by (simp add: c)
  have b: "totalTransactions r = purchases_count r + sales_count r"
    by (simp add: c)
  have l: "length (transactions r)
      = purchases_count r + completed_purchases_count r + received_sales_count r"
    using split_ps by (simp add: c)
  have d: "length (transactions r) = purchases_count r + sales_count r
      \<and> completed_purchases_count r + received_sales_count r = sales_count r"
    if "distinct (linkedKeys ?idx ?ps)"
    using count_consumed [OF distinct_accountSales [OF assms(3)] that] split_ps split_ss
    by (simp add: c)
  from a b l d show ?thesis by blast
qed

theorem conservation_of_counts_witness:
  "length (transactions (resultOf (parseMarketHistory ''me'' (Some mixedLedger))))
     = purchases_count (resultOf (parseMarketHistory ''me'' (Some mixedLedger)))
       + sales_count (resultOf (parseMarketHistory ''me'' (Some mixedLedger)))
   \<and> completed_purchases_count (resultOf (parseMarketHistory ''me'' (Some mixedLedger)))
       + uncompleted_purchases_count (resultOf (parseMarketHistory ''me'' (Some mixedLedger)))
     = purchases_count (resultOf (parseMarketHistory ''me'' (Some mixedLedger)))
   \<and> completed_purchases_count (resultOf (parseMarketHistory ''me'' (Some mixedLedger)))
       + received_sales_count (resultOf (parseMarketHistory ''me'' (Some mixedLedger)))
     = sales_count (resultOf (parseMarketHistory ''me'' (Some mixedLedger)))"
proof -
  have h2: "purchases mixedLedger = Some [entryP1, entryP3, entryS1, entryS2]"
    by (simp add: mixedLedger_def)
  have d: "distinct (linkedKeys
      (salesByAssetId (accountSales ''me'' (assets mixedLedger) [entryP1, entryP3, entryS1, entryS2]))
      (accountPurchases ''me'' (assets mixedLedger) [entryP1, entryP3, entryS1, entryS2]))"
    unfolding mixed_purchases mixed_sales mixed_keys by simp
  from conservation_of_counts [OF mixed_parse h2 mixed_distinct] d show ?thesis
    by blast
qed

text \<open>
  Claim C7, as stated, fails in its last part: with no catalog a display name is not
  always the placeholder. An entry that carries its own market name keeps it.
\<close>

theorem unknown_item_counterexample:
  "namesOf (parseMarketHistory ''me'' (Some namedLedger)) = [''AK-47'', ''Unknown Item'']"
  by (simp add: namesOf_def example_defs parse_defs Let_def)

text \<open>
  Claim C7, amended. The parser raises an error instead of returning a result when the
  history is absent or its purchases collection is absent; whenever the purchases
  collection is present it returns a result, whatever the catalog, absent or not; and
  with no catalog every display name is the entry's own market name when that is not
  empty, and the placeholder \<open>Unknown Item\<close> otherwise.
\<close>

theorem parser_fails_without_purchases_only:
  "parseMarketHistory me None = Inl InvalidHistory
   \<and> (purchases h = None \<longrightarrow> parseMarketHistory me (Some h) = Inl TypeError)
   \<and> (\<forall>es. purchases h = Some es \<longrightarrow> (\<exists>r. parseMarketHistory me (Some h) = Inr r))
   \<and> (\<forall>es r. purchases h = Some es \<and> assets h = None \<and> parseMarketHistory me (Some h) = Inr r
        \<longrightarrow> (\<forall>t \<in> set (transactions r).
               market_name (purchase t)
                 = str_or (raw_market_name (raw (purchase t))) ''Unknown Item''))"
proof (intro conjI allI impI ballI)
  show "parseMarketHistory me None = Inl InvalidHistory"
    by (simp add: parseMarketHistory_def)
next
  assume "purchases h = None"
  then show "parseMarketHistory me (Some h) = Inl TypeError"
    by (simp add: parseMarketHistory_def)
next
  fix es assume "purchases h = Some es"
  then show "\<exists>r. parseMarketHistory me (Some h) = Inr r"
    by (simp add: parseMarketHistory_def Let_def)
next
  fix es r t
  assume h: "purchases h = Some es \<and> assets h = None \<and> parseMarketHistory me (Some h) = Inr r"
    and t: "t \<in> set (transactions r)"
  from h have tr: "transactions r = linkAll (accountPurchases me None es) (accountSales me None es)"
    using parse_transactions [of me h r es] by simp
  from linkAll_purchase_mem [OF t [unfolded tr]]
  obtain kv where "purchase t = parseEntry me None kv"
    by (auto simp: accountPurchases_def accountSales_def)
  then show "market_name (purchase t) = str_or (raw_market_name (raw (purchase t))) ''Unknown Item''"
    by (simp add: parseEntry_no_catalog)
qed

theorem parser_fails_without_purchases_only_witness:
  "parseMarketHistory ''me'' (Some \<lparr> purchases = None, assets = None \<rparr>) = Inl TypeError
   \<and> parseMarketHistory ''me'' (Some namedLedger)
       = Inr (resultOf (parseMarketHistory ''me'' (Some namedLedger)))
   \<and> purchaseUncompleted parsedNamed
       \<in> set (transactions (resultOf (parseMarketHistory ''me'' (Some namedLedger))))
   \<and> market_name (purchase (purchaseUncompleted parsedNamed))
       = str_or (raw_market_name (raw (purchase (purchaseUncompleted parsedNamed)))) ''Unknown Item''"
proof -
  let ?r = "resultOf (parseMarketHistory ''me'' (Some namedLedger))"
  have p: "purchases namedLedger = Some [entryNamed, entryP1]" and a: "assets namedLedger = None"
    by (simp_all add: namedLedger_def)
  have n: "purchases \<lparr> purchases = None, assets = None \<rparr> = None"
    by simp
  from parser_fails_without_purchases_only [of "''me''" namedLedger] p
  have r: "parseMarketHistory ''me'' (Some namedLedger) = Inr ?r"
    by (auto simp: resultOf_def)
  have t: "purchaseUncompleted parsedNamed \<in> set (transactions ?r)"
    by (simp add: example_defs parse_defs resultOf_def Let_def)
  from parser_fails_without_purchases_only [of "''me''" namedLedger] p a r t
       parser_fails_without_purchases_only [of "''me''" "\<lparr> purchases = None, assets = None \<rparr>"] n
  show ?thesis by blast
qed

section \<open>Claims about the ROI calculator\<close>

text \<open>
  Claim C4. On an array of transaction records, every ROI record comes from a purchase record with status \<open>completed\<close>
  and the sale record it names: its buy price is the paid total of the purchase, its sell
  price the received amount of the sale, \<open>0\<close> when absent, and its profit the
  difference. Every completed purchase whose sale is found gives such a record, there
  are no more records than completed purchases, and a list of \<open>uncompleted\<close> and
  \<open>received\<close> records gives none. On scenario A (paid 10, received 15) the one
  record has profit 5 and ROI percent 50.
\<close>

theorem roi_only_for_completed_pairs:
  assumes "calculateROI (JsArray (map JsTx txs)) = Inr rs"
  shows "(\<forall>r \<in> set rs. \<exists>p \<in> set txs. \<exists>s \<in> set txs.
            role p = ''purchase'' \<and> transaction_status p = ''completed''
          \<and> role s = ''sale'' \<and> linked_sale_id p = Some (purchase_id s)
          \<and> purchase_raw r = purchase p \<and> sale_raw r = purchase s
          \<and> buy_price r = paid_total (purchase p)
          \<and> sell_price r = num_or_0 (received_amount (raw (purchase s)))
          \<and> profit r = sell_price r - buy_price r)
       \<and> (\<forall>p \<in> set txs. \<forall>s.
            role p = ''purchase'' \<and> transaction_status p = ''completed''
          \<and> truthy (linked_sale_id p) \<and> salesMap txs (String (linked_sale_id p)) = Some s
          \<longrightarrow> roiRecord p s \<in> set rs)
       \<and> length rs \<le> length (filter (\<lambda>t. role t = ''purchase'' \<and> transaction_status t = ''completed'') txs)
       \<and> ((\<forall>t \<in> set txs. transaction_status t = ''uncompleted'' \<or> transaction_status t = ''received'')
            \<longrightarrow> rs = [])
       \<and> roiSummary (calculateROI (JsArray (map JsTx
             (transactions (resultOf (parseMarketHistory ''me'' (Some scenarioA)))))))
           = [(''p1'', 10, 15, 5, 50)]"
proof -
  from assms have rs: "rs = List.map_filter (roiStep (salesMap txs)) txs"
    by (simp add: calculateROI_wellformed)
  have a: "\<exists>p \<in> set txs. \<exists>s \<in> set txs.
            role p = ''purchase'' \<and> transaction_status p = ''completed''
          \<and> role s = ''sale'' \<and> linked_sale_id p = Some (purchase_id s)
          \<and> purchase_raw r = purchase p \<and> sale_raw r = purchase s
          \<and> buy_price r = paid_total (purchase p)
          \<and> sell_price r = num_or_0 (received_amount (raw (purchase s)))
          \<and> profit r = sell_price r - buy_price r" if "r \<in> set rs" for r
  proof -
    from that obtain p where p: "p \<in> set txs" "roiStep (salesMap txs) p = Some r"
      by (auto simp: rs set_map_filter)
    from roiStep_SomeD [OF p(2)] obtain s where
      "role p = ''purchase''" "transaction_status p = ''completed''" "s \<in> set txs"
      "role s = ''sale''" "linked_sale_id p = Some (purchase_id s)" "r = roiRecord p s"
      by blast
    with p(1) show ?thesis
      by (intro bexI [of _ p] bexI [of _ s]) (simp_all add: roiRecord_prices)
  qed
  have b: "roiRecord p s \<in> set rs"
    if "p \<in> set txs" "role p = ''purchase''" "transaction_status p = ''completed''"
       "truthy (linked_sale_id p)" "salesMap txs (String (linked_sale_id p)) = Some s" for p s
  proof -
    from that have "roiStep (salesMap txs) p = Some (roiRecord p s)"
      by (simp add: roiStep_def)
    with that(1) show ?thesis by (auto simp: rs set_map_filter)
  qed
  have "length rs = length (filter (\<lambda>t. roiStep (salesMap txs) t \<noteq> None) txs)"
    by (simp add: rs length_map_filter)
  also have "\<dots> \<le> length (filter (\<lambda>t. role t = ''purchase'' \<and> transaction_status t = ''completed'') txs)"
    by (rule roiStep_count_le)
  finally have c: "length rs \<le> length (filter (\<lambda>t. role t = ''purchase'' \<and> transaction_status t = ''completed'') txs)" .
  have d: "rs = []"
    if "\<forall>t \<in> set txs. transaction_status t = ''uncompleted'' \<or> transaction_status t = ''received''"
  proof -
    from that have "\<forall>t \<in> set txs. roiStep (salesMap txs) t = None"
      by (auto intro: roiStep_NoneI)
    then have "set rs = {}" by (auto simp: rs set_map_filter)
    then show ?thesis by simp
  qed
  from a b c d scenarioA_roi show ?thesis by blast
qed

theorem roi_only_for_completed_pairs_witness:
  "roiRecord (purchaseCompleted parsedP1 parsedS1) (saleCompleted parsedP1 parsedS1)
     \<in> set (List.map_filter
          (roiStep (salesMap [purchaseCompleted parsedP1 parsedS1, saleCompleted parsedP1 parsedS1]))
          [purchaseCompleted parsedP1 parsedS1, saleCompleted parsedP1 parsedS1])
   \<and> length (List.map_filter
          (roiStep (salesMap [purchaseCompleted parsedP1 parsedS1, saleCompleted parsedP1 parsedS1]))
          [purchaseCompleted parsedP1 parsedS1, saleCompleted parsedP1 parsedS1]) \<le> 1"
proof -
  let ?txs = "[purchaseCompleted parsedP1 parsedS1, saleCompleted parsedP1 parsedS1]"
  have h: "calculateROI (JsArray (map JsTx ?txs))
      = Inr (List.map_filter (roiStep (salesMap ?txs)) ?txs)"
    by (rule calculateROI_wellformed)
  have p: "purchaseCompleted parsedP1 parsedS1 \<in> set ?txs"
    "role (purchaseCompleted parsedP1 parsedS1) = ''purchase''"
    "transaction_status (purchaseCompleted parsedP1 parsedS1) = ''completed''"
    "truthy (linked_sale_id (purchaseCompleted parsedP1 parsedS1))"
    by (simp_all add: purchaseCompleted_def truthy_def example_defs)
  have s: "salesMap ?txs (String (linked_sale_id (purchaseCompleted parsedP1 parsedS1)))
      = Some (saleCompleted parsedP1 parsedS1)"
    by (simp add: salesMap_def Map_new_def purchaseCompleted_def saleCompleted_def String_def)
  have n: "length (filter (\<lambda>t. role t = ''purchase'' \<and> transaction_status t = ''completed'') ?txs) = 1"
    by (simp add: purchaseCompleted_def saleCompleted_def)
  from roi_only_for_completed_pairs [OF h] p s n show ?thesis
    by (metis (no_types, lifting))
qed

text \<open>
  Claim C5. An ROI record whose buy price is \<open>0\<close> has ROI percent \<open>0\<close>, and the
  statistics report an overall ROI percent of \<open>0\<close>, a number and not \<^verbatim>\<open>NaN\<close>,
  when the total invested is \<open>0\<close>.
\<close>

theorem roi_zero_when_nothing_paid:
  "(\<forall>xs rs. calculateROI (JsArray xs) = Inr rs
      \<longrightarrow> (\<forall>r \<in> set rs. buy_price r = 0 \<longrightarrow> roi_percent r = 0))
   \<and> (\<forall>d ov. calculateTransactionStatistics d = Inr ov \<and> totalInvested ov = 0
      \<longrightarrow> roiPercent ov = Num 0)"
proof (intro conjI allI impI ballI)
  fix xs rs r
  assume rs: "calculateROI (JsArray xs) = Inr rs" and r: "r \<in> set rs" and z: "buy_price r = 0"
  from rs obtain es where "elemLoop (Map_new es) xs [] = Inr rs"
    by (auto simp: calculateROI_def split: sum.splits)
  from elemLoop_records [OF this] r obtain p s where "r = roiRecord p s"
    by auto
  with z show "roi_percent r = 0"
    by (simp add: roiRecord_zero roiRecord_prices)
next
  fix d ov
  assume "calculateTransactionStatistics d = Inr ov \<and> totalInvested ov = 0"
  then show "roiPercent ov = Num 0"
    by (auto simp: calculateTransactionStatistics_def Let_def overallROI_def split: sum.splits)
qed

theorem roi_zero_when_nothing_paid_witness:
  "(\<exists>rs r. calculateROI (JsArray (map JsTx
                (transactions (resultOf (parseMarketHistory ''me'' (Some freeLedger))))))
              = Inr rs
         \<and> r \<in> set rs \<and> buy_price r = 0 \<and> sell_price r = 5 \<and> roi_percent r = 0)
   \<and> (\<exists>ov. calculateTransactionStatistics
              (resultOf (parseMarketHistory ''me'' (Some \<lparr> purchases = Some [], assets = None \<rparr>)))
              = Inr ov
         \<and> totalInvested ov = 0 \<and> roiPercent ov = Num 0)"
proof -
  let ?txs = "transactions (resultOf (parseMarketHistory ''me'' (Some freeLedger)))"
  let ?r = "roiRecord (purchaseCompleted parsedP0 parsedS0) (saleCompleted parsedP0 parsedS0)"
  have h: "calculateROI (JsArray (map JsTx ?txs)) = Inr [?r]"
    unfolding free_transactions calculateROI_wellformed
    by (simp add: salesMap_def Map_new_def roiStep_def map_filter_simps
          purchaseCompleted_def saleCompleted_def truthy_def String_def example_defs)
  have b: "buy_price ?r = 0" "sell_price ?r = 5"
    by (simp_all add: roiRecord_prices purchaseCompleted_def saleCompleted_def example_defs
          parseEntry_def num_or_0_def Let_def)
  let ?d = "resultOf (parseMarketHistory ''me'' (Some \<lparr> purchases = Some [], assets = None \<rparr>))"
  have "\<exists>ov. calculateTransactionStatistics ?d = Inr ov \<and> totalInvested ov = 0"
    by (simp add: parse_defs resultOf_def stat_defs Let_def)
  then obtain ov where ov: "calculateTransactionStatistics ?d = Inr ov" "totalInvested ov = 0"
    by blast
  from roi_zero_when_nothing_paid h b ov show ?thesis
    by (metis list.set_intros(1))
qed

text \<open>
  Claim C8, as stated, fails in its second half: an array does not always make the
  calculator return. The filter that builds the index of the sales reads the role of
  every element, so an array that holds \<^verbatim>\<open>null\<close> raises a \<^verbatim>\<open>TypeError\<close>.
\<close>

theorem array_with_null_counterexample:
  "calculateROI (JsArray [JsNullElem]) = Inl TypeError"
  by (simp add: calculateROI_def elemHead_def)

text \<open>
  Claim C8, amended. The ROI calculator raises its error for a non-array exactly when
  its argument is not an array, a string included. On every array of transaction
  records, the empty one included, it returns a list. An array makes it fail only with
  a \<^verbatim>\<open>TypeError\<close>, and only when it holds an element that is not a transaction
  record: \<^verbatim>\<open>null\<close> or \<^verbatim>\<open>undefined\<close>, which always fails, or a record with no
  \<^verbatim>\<open>purchase\<close> object.
\<close>

theorem calculateROI_fails_iff_not_array:
  "(calculateROI arg = Inl NotAnArrayError \<longleftrightarrow> \<not> isArray arg)
   \<and> (\<forall>txs. \<exists>rs. calculateROI (JsArray (map JsTx txs)) = Inr rs \<and> length rs \<le> length txs)
   \<and> calculateROI (JsArray []) = Inr []
   \<and> calculateROI (JsString str) = Inl NotAnArrayError
   \<and> (\<forall>xs e. calculateROI (JsArray xs) = Inl e
        \<longrightarrow> e = TypeError \<and> (\<exists>x \<in> set xs. \<forall>t. x \<noteq> JsTx t))
   \<and> (\<forall>xs. JsNullElem \<in> set xs \<longrightarrow> calculateROI (JsArray xs) = Inl TypeError)"
proof -
  have a: "calculateROI arg = Inl NotAnArrayError \<longleftrightarrow> \<not> isArray arg"
  proof (cases arg)
    case (JsArray xs)
    have "calculateROI (JsArray xs) \<noteq> Inl NotAnArrayError"
      using calculateROI_array_error [of xs NotAnArrayError] by auto
    with JsArray show ?thesis by (simp add: isArray_def)
  qed (simp_all add: calculateROI_def isArray_def)
  have b: "\<exists>rs. calculateROI (JsArray (map JsTx txs)) = Inr rs \<and> length rs \<le> length txs" for txs
    by (simp add: calculateROI_wellformed length_map_filter)
  have c: "calculateROI (JsArray []) = Inr []" "calculateROI (JsString str) = Inl NotAnArrayError"
    by (simp_all add: calculateROI_def)
  have d: "e = TypeError \<and> (\<exists>x \<in> set xs. \<forall>t. x \<noteq> JsTx t)"
    if "calculateROI (JsArray xs) = Inl e" for xs e
    by (rule calculateROI_array_error [OF that])
  have e: "calculateROI (JsArray xs) = Inl TypeError" if "JsNullElem \<in> set xs" for xs
    using saleEntries_null [OF that] by (simp add: calculateROI_def)
  from a b c d e show ?thesis by blast
qed

theorem calculateROI_fails_iff_not_array_witness:
  "calculateROI JsNull = Inl NotAnArrayError
   \<and> (\<exists>rs. calculateROI (JsArray (map JsTx [purchaseUncompleted parsedP3])) = Inr rs)
   \<and> calculateROI (JsArray [JsTx (purchaseUncompleted parsedP3), JsNullElem]) = Inl TypeError
   \<and> calculateROI (JsArray [JsTx (purchaseCompleted parsedP1 parsedS1), bareSale]) = Inl TypeError"
proof -
  have n: "\<not> isArray (JsNull :: js_elem js_arg)"
    by (simp add: isArray_def)
  have m: "JsNullElem \<in> set [JsTx (purchaseUncompleted parsedP3), JsNullElem]"
    by simp
  have bare: "calculateROI (JsArray [JsTx (purchaseCompleted parsedP1 parsedS1), bareSale])
      = Inl TypeError"
    by (simp add: calculateROI_def elemHead_def headOf_def bareSale_def Map_new_def elemStep_def
          purchaseCompleted_def truthy_def String_def example_defs)
  from calculateROI_fails_iff_not_array [of JsNull] n m bare show ?thesis
    by blast
qed

section \<open>Claims about the statistics aggregator and the holdings matcher\<close>

text \<open>
  Claim C10. When the transaction list holds a sale record whose raw entry has no
  received amount, the running total received and the per-item total received of that
  display name are \<^verbatim>\<open>NaN\<close> at the end of the loop, so the overall total received
  and total profit are \<^verbatim>\<open>NaN\<close>; with timestamps in the range of dates the
  aggregator does return them. The ROI calculator reads the same missing amount as
  \<open>0\<close>.
\<close>

theorem missing_received_amount_gives_NaN:
  assumes "t \<in> set (transactions d)"
      and "role t = ''sale''"
      and "received_amount (raw (purchase t)) = None"
  shows "(\<forall>st. statLoop initialStats (transactions d) = Inr st
            \<longrightarrow> run_totalReceived st = NaN
              \<and> (\<exists>i. itemStats st (market_name (purchase t)) = Some i
                    \<and> item_totalReceived i = NaN))
       \<and> (\<forall>ov. calculateTransactionStatistics d = Inr ov
            \<longrightarrow> totalReceived ov = NaN \<and> totalProfit ov = NaN)
       \<and> ((\<forall>u \<in> set (transactions d). validDate (tx_time_sold u))
            \<longrightarrow> (\<exists>ov. calculateTransactionStatistics d = Inr ov
                   \<and> totalReceived ov = NaN \<and> totalProfit ov = NaN))
       \<and> (\<forall>p. sell_price (roiRecord p t) = 0)"
proof -
  have a: "run_totalReceived st = NaN
      \<and> (\<exists>i. itemStats st (market_name (purchase t)) = Some i \<and> item_totalReceived i = NaN)"
    if "statLoop initialStats (transactions d) = Inr st" for st
    using statLoop_sale_without_amount [OF that assms] by (simp add: itemNaN_def)
  have b: "totalReceived ov = NaN \<and> totalProfit ov = NaN"
    if "calculateTransactionStatistics d = Inr ov" for ov
  proof -
    from that obtain st where st: "statLoop initialStats (transactions d) = Inr st"
      and ov: "totalReceived ov = run_totalReceived st"
        "totalProfit ov = js_sub (run_totalReceived st) (Num (run_totalInvested st))"
      by (auto simp: calculateTransactionStatistics_def Let_def split: sum.splits)
    from a [OF st] ov show ?thesis by simp
  qed
  have c: "\<exists>ov. calculateTransactionStatistics d = Inr ov
      \<and> totalReceived ov = NaN \<and> totalProfit ov = NaN"
    if "\<forall>u \<in> set (transactions d). validDate (tx_time_sold u)"
  proof -
    from statLoop_total [OF that] obtain st where "statLoop initialStats (transactions d) = Inr st"
      by blast
    then obtain ov where "calculateTransactionStatistics d = Inr ov"
      by (simp add: calculateTransactionStatistics_def Let_def)
    with b show ?thesis by blast
  qed
  have e: "sell_price (roiRecord p t) = 0" for p
    using assms(3) by (simp add: roiRecord_prices num_or_0_def)
  from a b c e show ?thesis by blast
qed

theorem missing_received_amount_gives_NaN_witness:
  "(\<exists>ov. calculateTransactionStatistics (resultOf (parseMarketHistory ''me'' (Some noAmountLedger)))
            = Inr ov
        \<and> totalReceived ov = NaN \<and> totalProfit ov = NaN)
   \<and> sell_price (roiRecord (purchaseCompleted parsedP1 parsedS1n)
                   (saleCompleted parsedP1 parsedS1n)) = 0"
proof -
  let ?d = "resultOf (parseMarketHistory ''me'' (Some noAmountLedger))"
  let ?t = "saleCompleted parsedP1 parsedS1n"
  have h1: "?t \<in> set (transactions ?d)"
    unfolding noAmount_transactions by simp
  have h2: "role ?t = ''sale''"
    by (simp add: saleCompleted_def)
  have h3: "received_amount (raw (purchase ?t)) = None"
    by (simp add: saleCompleted_def example_defs parseEntry_def Let_def)
  have h4: "\<forall>u \<in> set (transactions ?d). validDate (tx_time_sold u)"
    unfolding noAmount_transactions
    by (simp add: purchaseCompleted_def saleCompleted_def example_defs parseEntry_def Let_def
          validDate_def num_or_0_def num_or_null_def)
  from missing_received_amount_gives_NaN [OF h1 h2 h3] h4 show ?thesis
    by blast
qed

text \<open>
  Claim C6. The total is the number of purchase records that carry a post-disposal id,
  and the matched and unmatched counts add up to it. With a total of \<open>0\<close> both
  percentage strings are \<open>0%\<close>. With a positive total each string is the two-decimal
  rendering of a count divided by the total and multiplied by 100 in doubles, and the
  two numbers that the strings denote add up to 100 within one hundredth: to 99.99,
  100.00 or 100.01. Each of the three occurs: 3 and 3997 of 4000 give \<open>0.07%\<close> and
  \<open>99.92%\<close>, and 1 and 31 of 32 give \<open>3.13%\<close> and \<open>96.88%\<close>; 23 of 160, which
  is 14.375 exactly, gives \<open>14.37%\<close>.
\<close>

theorem match_percentages:
  "total_purchases (matchInventoryWithPurchases txs inventory) = length (filter eligible txs)
   \<and> matched_count (matchInventoryWithPurchases txs inventory)
       + unmatched_count (matchInventoryWithPurchases txs inventory)
     = total_purchases (matchInventoryWithPurchases txs inventory)
   \<and> matched_count (matchInventoryWithPurchases txs inventory)
       = length (matched (matchInventoryWithPurchases txs inventory))
   \<and> unmatched_count (matchInventoryWithPurchases txs inventory)
       = length (unmatched (matchInventoryWithPurchases txs inventory))
   \<and> (total_purchases (matchInventoryWithPurchases txs inventory) = 0
        \<longrightarrow> matched_percentage (matchInventoryWithPurchases txs inventory) = ''0%''
          \<and> unmatched_percentage (matchInventoryWithPurchases txs inventory) = ''0%'')
   \<and> (0 < total_purchases (matchInventoryWithPurchases txs inventory)
        \<longrightarrow> matched_percentage (matchInventoryWithPurchases txs inventory)
              = toFixed2 (js_times_100 (roundDouble
                  (int (matched_count (matchInventoryWithPurchases txs inventory)))
                  (int (total_purchases (matchInventoryWithPurchases txs inventory))))) @ ''%''
          \<and> unmatched_percentage (matchInventoryWithPurchases txs inventory)
              = toFixed2 (js_times_100 (roundDouble
                  (int (unmatched_count (matchInventoryWithPurchases txs inventory)))
                  (int (total_purchases (matchInventoryWithPurchases txs inventory))))) @ ''%''
          \<and> (\<exists>a b. percentValue (matched_percentage (matchInventoryWithPurchases txs inventory))
                     = Some a
                 \<and> percentValue (unmatched_percentage (matchInventoryWithPurchases txs inventory))
                     = Some b
                 \<and> (a + b = 9999 \<or> a + b = 10000 \<or> a + b = 10001)))
   \<and> percentage 23 160 = ''14.37%''
   \<and> percentage 3 4000 = ''0.07%'' \<and> percentage 3997 4000 = ''99.92%''
   \<and> percentage 1 32 = ''3.13%'' \<and> percentage 31 32 = ''96.88%''"
proof -
  let ?ps = "filter eligible txs"
  let ?res = "matchLoop (inventoryMap inventory) ?ps ([], [])"
  let ?m = "length (fst ?res)" and ?u = "length (snd ?res)" and ?t = "length ?ps"
  have sum: "?m + ?u = ?t"
    using matchLoop_lengths [of "inventoryMap inventory" ?ps "[]" "[]"] by simp
  have f: "total_purchases (matchInventoryWithPurchases txs inventory) = ?t"
    "matched_count (matchInventoryWithPurchases txs inventory) = ?m"
    "unmatched_count (matchInventoryWithPurchases txs inventory) = ?u"
    "matched (matchInventoryWithPurchases txs inventory) = fst ?res"
    "unmatched (matchInventoryWithPurchases txs inventory) = snd ?res"
    "matched_percentage (matchInventoryWithPurchases txs inventory) = percentage ?m ?t"
    "unmatched_percentage (matchInventoryWithPurchases txs inventory) = percentage ?u ?t"
    by (simp_all add: matchInventoryWithPurchases_def Let_def)
  have zero: "percentage ?m ?t = ''0%'' \<and> percentage ?u ?t = ''0%''" if "?t = 0"
    using that by (simp add: percentage_def)
  have pos: "percentage ?m ?t = toFixed2 (js_times_100 (roundDouble (int ?m) (int ?t))) @ ''%''
      \<and> percentage ?u ?t = toFixed2 (js_times_100 (roundDouble (int ?u) (int ?t))) @ ''%''
      \<and> (\<exists>a b. percentValue (percentage ?m ?t) = Some a \<and> percentValue (percentage ?u ?t) = Some b
             \<and> (a + b = 9999 \<or> a + b = 10000 \<or> a + b = 10001))" if t: "0 < ?t"
    using percentage_values [OF sum t] t by (simp add: percentage_def)
  from sum zero pos percentage_examples(1-5) show ?thesis
    unfolding f by blast
qed

theorem match_percentages_witness:
  "matched_percentage (matchInventoryWithPurchases [] []) = ''0%''
   \<and> unmatched_percentage (matchInventoryWithPurchases [] []) = ''0%''
   \<and> matched_count (matchInventoryWithPurchases
        [purchaseCompleted parsedP1 parsedS1, purchaseUncompleted parsedP3]
        [\<lparr>inv_assetid = ''Y2'', icon_url = None\<rparr>])
     + unmatched_count (matchInventoryWithPurchases
        [purchaseCompleted parsedP1 parsedS1, purchaseUncompleted parsedP3]
        [\<lparr>inv_assetid = ''Y2'', icon_url = None\<rparr>]) = 2
   \<and> (\<exists>a b. percentValue (matched_percentage (matchInventoryWithPurchases
                 [purchaseCompleted parsedP1 parsedS1, purchaseUncompleted parsedP3]
                 [\<lparr>inv_assetid = ''Y2'', icon_url = None\<rparr>])) = Some a
          \<and> percentValue (unmatched_percentage (matchInventoryWithPurchases
                 [purchaseCompleted parsedP1 parsedS1, purchaseUncompleted parsedP3]
                 [\<lparr>inv_assetid = ''Y2'', icon_url = None\<rparr>])) = Some b
          \<and> (a + b = 9999 \<or> a + b = 10000 \<or> a + b = 10001))"
proof -
  let ?txs = "[purchaseCompleted parsedP1 parsedS1, purchaseUncompleted parsedP3]"
  let ?inv = "[\<lparr>inv_assetid = ''Y2'', icon_url = None\<rparr>]"
  have z: "total_purchases (matchInventoryWithPurchases [] []) = 0"
    by (simp add: matchInventoryWithPurchases_def)
  have e: "length (filter eligible ?txs) = 2"
    by (simp add: eligible_def purchaseCompleted_def purchaseUncompleted_def truthy_def
          example_defs parseEntry_def Let_def)
  from match_percentages [of "[]" "[]"] z
  have zero: "matched_percentage (matchInventoryWithPurchases [] []) = ''0%''
      \<and> unmatched_percentage (matchInventoryWithPurchases [] []) = ''0%''"
    by blast
  from match_percentages [of ?txs ?inv] e
  have t: "total_purchases (matchInventoryWithPurchases ?txs ?inv) = 2"
    by simp
  then have p: "0 < total_purchases (matchInventoryWithPurchases ?txs ?inv)"
    by simp
  from match_percentages [of ?txs ?inv] t have c: "matched_count (matchInventoryWithPurchases ?txs ?inv)
      + unmatched_count (matchInventoryWithPurchases ?txs ?inv) = 2"
    by simp
  from match_percentages [of ?txs ?inv] p
  have "\<exists>a b. percentValue (matched_percentage (matchInventoryWithPurchases ?txs ?inv)) = Some a
      \<and> percentValue (unmatched_percentage (matchInventoryWithPurchases ?txs ?inv)) = Some b
      \<and> (a + b = 9999 \<or> a + b = 10000 \<or> a + b = 10001)"
    by blast
  with zero c show ?thesis by blast
qed

end
